theory Spec2Isabelle
  imports Complex_Main "HOL-Library.Sublist"
begin

section \<open>JavaScript values, numbers and strings\<close>

text \<open>
  The program is JavaScript: \<^verbatim>\<open>src/app.js\<close> (the browser client) and
  \<^verbatim>\<open>src/server.js\<close> (the Express server); a third file holds an earlier, simpler
  client and is not modelled. The values that reach the functions modelled here are \<^verbatim>\<open>undefined\<close>, \<^verbatim>\<open>null\<close> and parsed JSON.
  A string is a list of 8-bit characters: ASCII text, with a character beyond ASCII
  (the dash of some fixed replies) written as the bytes of its UTF-8 encoding. Such bytes
  have no case, are not white space and are not word characters, which is what JavaScript
  says of the dash itself. An object is the list of its own properties in source order.
\<close>

datatype jsval =
    JUndefined
  | JNull
  | JBool bool
  | JNum real
  | JStr string
  | JArr "jsval list"
  | JObj "(string \<times> jsval) list"

text \<open>\<^verbatim>\<open>!v\<close> is \<open>\<not> truthy v\<close>. \<^verbatim>\<open>NaN\<close> never occurs in parsed JSON.\<close>

fun truthy :: "jsval \<Rightarrow> bool" where
  "truthy JUndefined = False"
| "truthy JNull = False"
| "truthy (JBool b) = b"
| "truthy (JNum r) = (r \<noteq> 0)"
| "truthy (JStr s) = (s \<noteq> [])"
| "truthy (JArr _) = True"
| "truthy (JObj _) = True"

text \<open>What the program can throw: a \<^verbatim>\<open>TypeError\<close> of the language (a method
  called on a value that has none, a property read on \<^verbatim>\<open>null\<close>), the
  \<^verbatim>\<open>Error('Server error')\<close> of the client, the \<^verbatim>\<open>Error('Empty reply from LLM')\<close>
  of the server, and a rejected promise of \<^verbatim>\<open>fetch\<close> or \<^verbatim>\<open>resp.json()\<close>.\<close>

datatype error = TypeError | ServerError | EmptyReply | Rejected

subsection \<open>Characters\<close>

definition toLowerChar :: "char \<Rightarrow> char" where
  "toLowerChar c =
     (if 65 \<le> (of_char c :: nat) \<and> (of_char c :: nat) \<le> 90
      then char_of ((of_char c :: nat) + 32) else c)"

definition toUpperChar :: "char \<Rightarrow> char" where
  "toUpperChar c =
     (if 97 \<le> (of_char c :: nat) \<and> (of_char c :: nat) \<le> 122
      then char_of ((of_char c :: nat) - 32) else c)"

text \<open>\<^verbatim>\<open>String.prototype.toLowerCase\<close>.\<close>

definition toLowerCase :: "string \<Rightarrow> string" where
  "toLowerCase s = map toLowerChar s"

subsection \<open>Regular expressions of the crisis lists\<close>

text \<open>
  Every pattern of \<^verbatim>\<open>CRISIS_PATTERNS\<close> is a literal with the flag \<^verbatim>\<open>i\<close>
  and no metacharacter, such as \<^verbatim>\<open>/kill myself/i\<close>. \<open>Literal_i src\<close> is that
  regular expression. Without the flag \<^verbatim>\<open>g\<close> the expression keeps no
  \<^verbatim>\<open>lastIndex\<close>: \<^verbatim>\<open>test\<close> always searches from the start.
  With the flag \<^verbatim>\<open>i\<close> two characters match when their canonical forms are equal,
  and the canonical form of a character is its upper case.
\<close>

datatype regexp = Literal_i string

definition Canonicalize :: "char \<Rightarrow> char" where
  "Canonicalize c = toUpperChar c"

text \<open>The pattern matches at the very start of the text.\<close>

fun match_here :: "string \<Rightarrow> string \<Rightarrow> bool" where
  "match_here [] t = True"
| "match_here (p # ps) [] = False"
| "match_here (p # ps) (c # cs) = (Canonicalize p = Canonicalize c \<and> match_here ps cs)"

text \<open>\<^verbatim>\<open>re.test(t)\<close>: the first position, from the left, where the pattern matches.\<close>

fun test_from :: "string \<Rightarrow> string \<Rightarrow> bool" where
  "test_from p [] = match_here p []"
| "test_from p (c # cs) = (match_here p (c # cs) \<or> test_from p cs)"

fun regexp_test :: "regexp \<Rightarrow> string \<Rightarrow> bool" where
  "regexp_test (Literal_i p) t = test_from p t"

section \<open>Crisis detection\<close>

text \<open>\<^verbatim>\<open>CONFIG.CRISIS_PATTERNS\<close> of \<^verbatim>\<open>app.js\<close>.\<close>

definition CRISIS_PATTERNS :: "regexp list" where
  "CRISIS_PATTERNS =
     [Literal_i ''suicid'', Literal_i ''kill myself'', Literal_i ''end my life'',
      Literal_i ''want to die'', Literal_i ''hurting myself'',
      Literal_i ''cant go on'', Literal_i ''no reason to live'', Literal_i ''die by myself'']"

text \<open>\<^verbatim>\<open>CRISIS_PATTERNS\<close> of \<^verbatim>\<open>server.js\<close>.\<close>

definition SERVER_CRISIS_PATTERNS :: "regexp list" where
  "SERVER_CRISIS_PATTERNS =
     [Literal_i ''suicid'', Literal_i ''kill myself'', Literal_i ''end my life'',
      Literal_i ''want to die'', Literal_i ''hurting myself'', Literal_i ''cant go on'']"

text \<open>
  \<^verbatim>\<open>
  function detectCrisis(text) {
    if (!text) return false;
    const t = text.toLowerCase();
    return CONFIG.CRISIS_PATTERNS.some(re => re.test(t));
  }
  \<close>
  A truthy value that is not a string has no method \<^verbatim>\<open>toLowerCase\<close>: the call throws.
\<close>

definition detectWith :: "regexp list \<Rightarrow> jsval \<Rightarrow> error + bool" where
  "detectWith patterns text =
     (if \<not> truthy text then Inr False
      else case text of
             JStr s \<Rightarrow> (let t = toLowerCase s in Inr (list_ex (\<lambda>re. regexp_test re t) patterns))
           | _ \<Rightarrow> Inl TypeError)"

definition detectCrisis :: "jsval \<Rightarrow> error + bool" where
  "detectCrisis text = detectWith CRISIS_PATTERNS text"

text \<open>\<^verbatim>\<open>detectCrisisServer\<close> of \<^verbatim>\<open>server.js\<close> has the same body over the server's list.\<close>

definition detectCrisisServer :: "jsval \<Rightarrow> error + bool" where
  "detectCrisisServer text = detectWith SERVER_CRISIS_PATTERNS text"

text \<open>The phrases of the client's patterns, as plain strings.\<close>

definition crisis_phrases :: "string list" where
  "crisis_phrases =
     [''suicid'', ''kill myself'', ''end my life'', ''want to die'', ''hurting myself'',
      ''cant go on'', ''no reason to live'', ''die by myself'']"

text \<open>A pattern without upper-case letters: on a lower-cased text such a pattern matches
  only the very same characters.\<close>

definition no_upper :: "string \<Rightarrow> bool" where
  "no_upper p = list_all (\<lambda>c. \<not> (65 \<le> (of_char c :: nat) \<and> (of_char c :: nat) \<le> 90)) p"

section \<open>Numbers\<close>

text \<open>
  A JavaScript number is \<^verbatim>\<open>NaN\<close> or a finite value; the finite values are taken as
  real numbers, so the rounding of binary floating point is left out. No infinity arises:
  the only division of the program is guarded by \<^verbatim>\<open>count ? ... : 0\<close>.
  Arithmetic with \<^verbatim>\<open>NaN\<close> gives \<^verbatim>\<open>NaN\<close>, every comparison with it is false.
\<close>

datatype jsnum = NaN | Num real

fun js_add :: "jsnum \<Rightarrow> jsnum \<Rightarrow> jsnum" where
  "js_add (Num a) (Num b) = Num (a + b)"
| "js_add _ _ = NaN"

text \<open>\<^verbatim>\<open>sum / count\<close>, used for a positive count only.\<close>

fun js_div :: "jsnum \<Rightarrow> nat \<Rightarrow> jsnum" where
  "js_div (Num a) n = Num (a / real n)"
| "js_div NaN n = NaN"

fun Math_abs :: "jsnum \<Rightarrow> jsnum" where
  "Math_abs (Num a) = Num \<bar>a\<bar>"
| "Math_abs NaN = NaN"

fun Math_min :: "jsnum \<Rightarrow> jsnum \<Rightarrow> jsnum" where
  "Math_min (Num a) (Num b) = Num (min a b)"
| "Math_min _ _ = NaN"

fun Math_max :: "jsnum \<Rightarrow> jsnum \<Rightarrow> jsnum" where
  "Math_max (Num a) (Num b) = Num (max a b)"
| "Math_max _ _ = NaN"

fun js_gt :: "jsnum \<Rightarrow> jsnum \<Rightarrow> bool" where
  "js_gt (Num a) (Num b) = (a > b)"
| "js_gt _ _ = False"

fun js_lt :: "jsnum \<Rightarrow> jsnum \<Rightarrow> bool" where
  "js_lt (Num a) (Num b) = (a < b)"
| "js_lt _ _ = False"

fun js_le :: "jsnum \<Rightarrow> jsnum \<Rightarrow> bool" where
  "js_le (Num a) (Num b) = (a \<le> b)"
| "js_le _ _ = False"

text \<open>A property that is absent reads as \<^verbatim>\<open>undefined\<close>, here \<open>None\<close>;
  in arithmetic and under \<^verbatim>\<open>Math.abs\<close>, \<^verbatim>\<open>undefined\<close> converts to \<^verbatim>\<open>NaN\<close>.\<close>

fun to_number :: "jsnum option \<Rightarrow> jsnum" where
  "to_number None = NaN"
| "to_number (Some n) = n"

text \<open>\<^verbatim>\<open>v || d\<close> for a string or absent \<open>v\<close>: the empty string is falsy too.\<close>

definition string_or :: "string option \<Rightarrow> string \<Rightarrow> string" where
  "string_or v d = (case v of Some s \<Rightarrow> if s \<noteq> [] then s else d | None \<Rightarrow> d)"

section \<open>The tokenizer\<close>

text \<open>
  \<^verbatim>\<open>text.toLowerCase().match(/\b[^\s]+\b/g) || []\<close>.
  \<^verbatim>\<open>\s\<close> is white space (tab, line feed, vertical tab, form feed, carriage return,
  space), \<^verbatim>\<open>\b\<close> holds between two characters of which exactly one is a word
  character (a letter, a digit or the underscore); the start and the end of the text count
  as non-word characters.
\<close>

definition is_space :: "char \<Rightarrow> bool" where
  "is_space c = ((of_char c :: nat) \<in> {9, 10, 11, 12, 13, 32})"

definition is_word :: "char \<Rightarrow> bool" where
  "is_word c =
     (let n = (of_char c :: nat)
      in (48 \<le> n \<and> n \<le> 57) \<or> (65 \<le> n \<and> n \<le> 90) \<or> n = 95 \<or> (97 \<le> n \<and> n \<le> 122))"

text \<open>\<open>boundary prev rest\<close>: \<^verbatim>\<open>\b\<close> at the position in front of \<open>rest\<close>, where
  \<open>prev\<close> tells whether the character before the position is a word character.\<close>

definition boundary :: "bool \<Rightarrow> string \<Rightarrow> bool" where
  "boundary prev rest = (prev \<noteq> (case rest of [] \<Rightarrow> False | c # _ \<Rightarrow> is_word c))"

text \<open>
  \<^verbatim>\<open>[^\s]+\<close> is greedy: it first takes the whole run of non-space characters and gives
  characters back one at a time until \<^verbatim>\<open>\b\<close> holds behind it; it keeps one
  character at least. \<open>backtrack rest n\<close> is the length of the match when the run has
  \<open>n\<close> characters.
\<close>

fun backtrack :: "string \<Rightarrow> nat \<Rightarrow> nat option" where
  "backtrack rest 0 = None"
| "backtrack rest (Suc k) =
     (if boundary (is_word (rest ! k)) (drop (Suc k) rest) then Some (Suc k)
      else backtrack rest k)"

text \<open>One attempt of the whole pattern at the position in front of \<open>rest\<close>.\<close>

definition match_at :: "bool \<Rightarrow> string \<Rightarrow> nat option" where
  "match_at prev rest =
     (if boundary prev rest
      then backtrack rest (length (takeWhile (\<lambda>c. \<not> is_space c) rest))
      else None)"

text \<open>The flag \<^verbatim>\<open>g\<close>: every match from left to right, each search starting where the
  match before it ended, or one character further after a position without a match.\<close>

function match_all :: "bool \<Rightarrow> string \<Rightarrow> string list" where
  "match_all prev [] = []"
| "match_all prev (c # cs) =
     (case match_at prev (c # cs) of
        Some k \<Rightarrow> take k (c # cs) # match_all (is_word ((c # cs) ! (k - 1))) (drop k (c # cs))
      | None \<Rightarrow> match_all (is_word c) cs)"
  by pat_completeness auto
termination
proof (relation "measure (\<lambda>(prev, s). length s)")
  show "wf (measure (\<lambda>(prev, s). length s))"
    by simp
next
  fix prev c cs
  show "((is_word c, cs), (prev, c # cs)) \<in> measure (\<lambda>(prev, s). length s)"
    by simp
next
  fix prev c cs k
  have pos: "backtrack r n = Some j \<Longrightarrow> 0 < j" for r n j
    by (induction n) (auto split: if_splits)
  assume "match_at prev (c # cs) = Some k"
  then have "0 < k"
    unfolding match_at_def by (auto split: if_splits dest: pos)
  then show "((is_word ((c # cs) ! (k - 1)), drop k (c # cs)), (prev, c # cs))
               \<in> measure (\<lambda>(prev, s). length s)"
    by simp
qed

definition tokenize :: "string \<Rightarrow> string list" where
  "tokenize s = match_all False (toLowerCase s)"

section \<open>The lexicon and the sentiment scorer\<close>

text \<open>\<^verbatim>\<open>LEXICON\<close>: token, valence, emotion label.\<close>

definition LEXICON :: "(string \<times> real \<times> string) list" where
  "LEXICON =
     [(''happy'', 0.9, ''joy''),
      (''joy'', 0.9, ''joy''),
      (''glad'', 0.6, ''joy''),
      (''excited'', 0.8, ''joy''),
      (''good'', 0.4, ''calm''),
      (''sad'', - 0.8, ''sadness''),
      (''depressed'', - 0.9, ''sadness''),
      (''lonely'', - 0.6, ''sadness''),
      (''anxious'', - 0.7, ''anxiety''),
      (''worried'', - 0.6, ''anxiety''),
      (''panic'', - 0.85, ''anxiety''),
      (''overwhelmed'', - 0.75, ''overwhelm''),
      (''angry'', - 0.6, ''anger''),
      (''frustrated'', - 0.5, ''anger''),
      (''okay'', 0.0, ''neutral''),
      (''fine'', 0.1, ''neutral'')]"

text \<open>
  \<^verbatim>\<open>LEXICON\<close> is an object literal, so \<^verbatim>\<open>LEXICON[tok]\<close> also finds what the
  object inherits from \<^verbatim>\<open>Object.prototype\<close>: for these names the lookup gives a
  function or an object, which is truthy and has neither \<^verbatim>\<open>score\<close> nor
  \<^verbatim>\<open>emotion\<close>.
\<close>

definition Object_prototype :: "string list" where
  "Object_prototype =
     [''constructor'', ''__defineGetter__'', ''__defineSetter__'', ''hasOwnProperty'',
      ''__lookupGetter__'', ''__lookupSetter__'', ''isPrototypeOf'', ''propertyIsEnumerable'',
      ''toString'', ''valueOf'', ''__proto__'', ''toLocaleString'']"

datatype lexval = Own real string | Inherited | Missing

definition LEXICON_get :: "string \<Rightarrow> lexval" where
  "LEXICON_get tok =
     (case map_of LEXICON tok of
        Some (v, e) \<Rightarrow> Own v e
      | None \<Rightarrow> if tok \<in> set Object_prototype then Inherited else Missing)"

text \<open>\<^verbatim>\<open>LEXICON[tok].score\<close> and \<^verbatim>\<open>LEXICON[tok].emotion\<close>.\<close>

definition lex_score :: "lexval \<Rightarrow> jsnum option" where
  "lex_score e = (case e of Own v _ \<Rightarrow> Some (Num v) | _ \<Rightarrow> None)"

definition lex_emotion :: "lexval \<Rightarrow> string option" where
  "lex_emotion e = (case e of Own _ l \<Rightarrow> Some l | _ \<Rightarrow> None)"

text \<open>The object \<^verbatim>\<open>{ score, emotion, count }\<close>. A field is \<open>None\<close> where the
  object has no such property: the crisis entry \<^verbatim>\<open>{ score: -1, emotion: 'crisis' }\<close>
  has no \<^verbatim>\<open>count\<close>.\<close>

record score_obj =
  score :: "jsnum option"
  emotion :: "string option"
  count :: "nat option"

text \<open>What \<^verbatim>\<open>scoreText\<close> returns: the bare number of its first line, or the object of
  its last.\<close>

datatype score_ret = RetNumber real | RetObject score_obj

text \<open>Reading \<^verbatim>\<open>.score\<close>, \<^verbatim>\<open>.emotion\<close> or \<^verbatim>\<open>.count\<close> of the result, or
  spreading it into an object literal: a number has none of the three properties.\<close>

fun props :: "score_ret \<Rightarrow> score_obj" where
  "props (RetNumber n) = \<lparr>score = None, emotion = None, count = None\<rparr>"
| "props (RetObject ob) = ob"

text \<open>The local variables of \<^verbatim>\<open>scoreText\<close> that the loop updates.\<close>

record loop_vars =
  sum_v :: jsnum
  count_v :: nat
  dominantEmotion :: "string option"
  highestAbs :: jsnum

text \<open>
  \<^verbatim>\<open>
  tokens.forEach(tok => {
    if (LEXICON[tok]) {
      const val = LEXICON[tok].score;
      sum += val;
      count++;
      if (Math.abs(val) > highestAbs) {
        highestAbs = Math.abs(val);
        dominantEmotion = LEXICON[tok].emotion;
      }
    }
  });
  \<close>
\<close>

definition each_token :: "loop_vars \<Rightarrow> string \<Rightarrow> loop_vars" where
  "each_token a tok =
     (if LEXICON_get tok \<noteq> Missing
      then (let val = lex_score (LEXICON_get tok);
                a1 = a\<lparr>sum_v := js_add (sum_v a) (to_number val), count_v := count_v a + 1\<rparr>
            in if js_gt (Math_abs (to_number val)) (highestAbs a1)
               then a1\<lparr>highestAbs := Math_abs (to_number val),
                       dominantEmotion := lex_emotion (LEXICON_get tok)\<rparr>
               else a1)
      else a)"

definition loop_init :: loop_vars where
  "loop_init = \<lparr>sum_v = Num 0, count_v = 0, dominantEmotion = None, highestAbs = Num 0\<rparr>"

text \<open>
  \<^verbatim>\<open>
  function scoreText(text) {
    if (!text) return 0;
    const tokens = text.toLowerCase().match(/\b[^\s]+\b/g) || [];
    let sum = 0, count = 0, dominantEmotion = null, highestAbs = 0;
    tokens.forEach(...);
    const avg = count ? (sum / count) : 0;
    return { score: Math.max(-1, Math.min(1, avg)), emotion: dominantEmotion || 'neutral', count };
  }
  \<close>
\<close>

definition scoreText :: "jsval \<Rightarrow> error + score_ret" where
  "scoreText text =
     (if \<not> truthy text then Inr (RetNumber 0)
      else case text of
             JStr s \<Rightarrow>
               (let tokens = tokenize s;
                    a = foldl each_token loop_init tokens;
                    avg = (if count_v a \<noteq> 0 then js_div (sum_v a) (count_v a) else Num 0)
                in Inr (RetObject
                     \<lparr>score = Some (Math_max (Num (- 1)) (Math_min (Num 1) avg)),
                      emotion = Some (string_or (dominantEmotion a) ''neutral''),
                      count = Some (count_v a)\<rparr>))
           | _ \<Rightarrow> Inl TypeError)"

section \<open>The session state of the client\<close>

text \<open>
  The module-level variables of \<^verbatim>\<open>app.js\<close> and the parts of the page they write.
  A rendered message keeps its text, its sender and, when \<^verbatim>\<open>meta.score\<close> is
  defined, the three parts of its meta line (label, score, time) unformatted.
  \<^verbatim>\<open>Date.now()\<close> reads \<open>clock\<close> at the next index: two reads may differ.
\<close>

record meta =
  meta_ts :: nat
  meta_score :: "jsnum option"
  meta_emotion :: "string option"

record message =
  msg_text :: string
  msg_sender :: string
  msg_meta :: "(string \<times> jsnum \<times> nat) option"

record transcript_entry =
  te_sender :: string
  te_text :: string
  te_ts :: nat
  te_score :: "jsnum option"
  te_emotion :: "string option"
  te_lexCount :: "nat option"

text \<open>\<^verbatim>\<open>{ t: timestamp, ...scoreObj }\<close>.\<close>

record timeline_event =
  ev_t :: nat
  ev_obj :: score_obj

record session =
  transcript :: "transcript_entry list"
  emotionTimeline :: "timeline_event list"
  chart_labels :: "nat list"
  chart_data :: "jsnum option list"
  messages :: "message list"
  crisisOverlay_hidden :: bool
  typingIndicator_hidden :: bool
  clock :: "nat \<Rightarrow> nat"
  reads :: nat

definition Date_now :: "session \<Rightarrow> nat \<times> session" where
  "Date_now s = (clock s (reads s), s\<lparr>reads := Suc (reads s)\<rparr>)"

text \<open>
  \<^verbatim>\<open>addMessageToUI(text, sender, meta)\<close> appends one message to the page; the meta line
  shows \<^verbatim>\<open>meta.emotion || 'sentiment'\<close>, the score and the time.
\<close>

definition addMessageToUI :: "string \<Rightarrow> string \<Rightarrow> meta \<Rightarrow> session \<Rightarrow> session" where
  "addMessageToUI txt sender m s =
     s\<lparr>messages := messages s @
        [\<lparr>msg_text = txt, msg_sender = sender,
          msg_meta = (case meta_score m of
                        None \<Rightarrow> None
                      | Some sc \<Rightarrow> Some (string_or (meta_emotion m) ''sentiment'', sc, meta_ts m))\<rparr>]\<rparr>"

text \<open>
  \<^verbatim>\<open>
  function pushToTranscript(sender, text, scoreObj) {
    const entry = { sender, text, ts: Date.now(), score: scoreObj.score,
                    emotion: scoreObj.emotion, lexCount: scoreObj.count };
    transcript.push(entry);
  }
  \<close>
\<close>

definition pushToTranscript :: "string \<Rightarrow> string \<Rightarrow> score_obj \<Rightarrow> session \<Rightarrow> session" where
  "pushToTranscript sender txt scoreObj s =
     (let (now, s1) = Date_now s
      in s1\<lparr>transcript := transcript s1 @
            [\<lparr>te_sender = sender, te_text = txt, te_ts = now, te_score = score scoreObj,
              te_emotion = emotion scoreObj, te_lexCount = count scoreObj\<rparr>]\<rparr>)"

text \<open>
  \<^verbatim>\<open>
  function pushToTimeline(scoreObj) {
    const timestamp = Date.now();
    emotionTimeline.push({ t: timestamp, ...scoreObj });
    if (emotionTimeline.length > 80) emotionTimeline.shift();
    chartData.labels = emotionTimeline.map(e => new Date(e.t).toLocaleTimeString());
    chartData.datasets[0].data = emotionTimeline.map(e => e.score);
    emotionChart.update();
  }
  \<close>
  \<^verbatim>\<open>shift\<close> removes the first element. The labels are kept as times.
\<close>

definition pushToTimeline :: "score_obj \<Rightarrow> session \<Rightarrow> session" where
  "pushToTimeline scoreObj s =
     (let (timestamp, s1) = Date_now s;
          pushed = emotionTimeline s1 @ [\<lparr>ev_t = timestamp, ev_obj = scoreObj\<rparr>];
          kept = (if length pushed > 80 then tl pushed else pushed)
      in s1\<lparr>emotionTimeline := kept,
            chart_labels := map ev_t kept,
            chart_data := map (\<lambda>e. score (ev_obj e)) kept\<rparr>)"

section \<open>Crisis escalation and the local reply\<close>

definition CRISIS_MESSAGE :: string where
  "CRISIS_MESSAGE = ''I hear you. I'm worried about your safety. Please consider contacting emergency services or a crisis line now.''"

text \<open>
  \<^verbatim>\<open>
  function escalateToCrisis() {
    crisisOverlay.hidden = false;
    addMessageToUI("I hear you. ...", 'bot', { ts: Date.now(), score: -1, emotion: 'crisis' });
  }
  \<close>
\<close>

definition escalateToCrisis :: "session \<Rightarrow> session" where
  "escalateToCrisis s =
     (let s1 = s\<lparr>crisisOverlay_hidden := False\<rparr>;
          (now, s2) = Date_now s1
      in addMessageToUI CRISIS_MESSAGE ''bot''
           \<lparr>meta_ts = now, meta_score = Some (Num (- 1)), meta_emotion = Some ''crisis''\<rparr> s2)"

definition HIGH_CONCERN :: string where
  "HIGH_CONCERN = ''I'm sorry you're going through such a hard time. Would you like a grounding or breathing exercise now?''"

definition MODERATE_CONCERN :: string where
  "MODERATE_CONCERN = ''I hear that this is difficult. Tell me more about what's been on your mind.''"

definition POSITIVE :: string where
  "POSITIVE = ''It's great to hear some positivity. What do you think helped you feel this way?''"

text \<open>The first prompt has a dash (U+2014) after \<^verbatim>\<open>more\<close>.\<close>

definition generics :: "string list" where
  "generics =
     [''Tell me more '' @ [CHR 0xE2, CHR 0x80, CHR 0x94] @ '' I'm listening.'',
      ''That sounds important. How long have you been feeling that way?'',
      ''Thanks for sharing that with me. What would be helpful right now?'']"

text \<open>
  \<^verbatim>\<open>xs[Math.floor(r * xs.length)]\<close>, where \<open>r\<close> is the value of
  \<^verbatim>\<open>Math.random()\<close>. An index out of range reads \<^verbatim>\<open>undefined\<close>, here \<open>None\<close>.
\<close>

definition random_pick :: "string list \<Rightarrow> real \<Rightarrow> string option" where
  "random_pick xs r =
     (let i = \<lfloor>r * real (length xs)\<rfloor>
      in if 0 \<le> i \<and> i < int (length xs) then Some (xs ! nat i) else None)"

text \<open>
  \<^verbatim>\<open>
  function localReply(userText, scoreObj) {
    if (detectCrisis(userText)) { escalateToCrisis(); return null; }
    const s = scoreObj.score;
    if (s <= -0.6) { return "I'm sorry ..."; }
    else if (s < -0.2) { return "I hear that ..."; }
    else if (s > 0.4) { return "It's great ..."; }
    else { const generics = [...]; return generics[Math.floor(Math.random() * generics.length)]; }
  }
  \<close>
  The result is the reply (\<open>None\<close> for \<^verbatim>\<open>null\<close> or \<^verbatim>\<open>undefined\<close>) and the state.
\<close>

definition localReply :: "jsval \<Rightarrow> score_obj \<Rightarrow> real \<Rightarrow> session \<Rightarrow> error + (string option \<times> session)" where
  "localReply userText scoreObj r st =
     (case detectCrisis userText of
        Inl e \<Rightarrow> Inl e
      | Inr True \<Rightarrow> Inr (None, escalateToCrisis st)
      | Inr False \<Rightarrow>
          (let s = to_number (score scoreObj)
           in if js_le s (Num (- 0.6)) then Inr (Some HIGH_CONCERN, st)
              else if js_lt s (Num (- 0.2)) then Inr (Some MODERATE_CONCERN, st)
              else if js_gt s (Num 0.4) then Inr (Some POSITIVE, st)
              else Inr (random_pick generics r, st)))"

section \<open>The submit handler\<close>

text \<open>\<^verbatim>\<open>String.prototype.trim\<close>.\<close>

definition trim :: "string \<Rightarrow> string" where
  "trim s = rev (dropWhile is_space (rev (dropWhile is_space s)))"

text \<open>
  What the call of the server gives: \<^verbatim>\<open>fetch\<close> rejects, or there is a response with
  its \<^verbatim>\<open>ok\<close> flag and the result of \<^verbatim>\<open>resp.json()\<close> (\<open>None\<close> when the body is
  not JSON and the promise rejects).
\<close>

datatype fetch_result = FetchRejected | Response bool "jsval option"

text \<open>
  Reading one of the properties \<^verbatim>\<open>reply\<close>, \<^verbatim>\<open>safety\<close>, \<^verbatim>\<open>crisis\<close>,
  \<^verbatim>\<open>message\<close>: of \<^verbatim>\<open>null\<close> or \<^verbatim>\<open>undefined\<close> it throws, of an object parsed
  from JSON it gives the last property of that name, of any other value it gives
  \<^verbatim>\<open>undefined\<close>.
\<close>

fun get_prop :: "jsval \<Rightarrow> string \<Rightarrow> error + jsval" where
  "get_prop JUndefined k = Inl TypeError"
| "get_prop JNull k = Inl TypeError"
| "get_prop (JObj kvs) k = Inr (case map_of (rev kvs) k of Some v \<Rightarrow> v | None \<Rightarrow> JUndefined)"
| "get_prop _ k = Inr JUndefined"

definition APOLOGY :: string where
  "APOLOGY = ''Sorry, I'm having trouble responding right now.''"

text \<open>\<^verbatim>\<open>data.safety && data.safety.crisis\<close> as a condition, for \<open>data\<close> that is
  neither \<^verbatim>\<open>null\<close> nor \<^verbatim>\<open>undefined\<close>.\<close>

definition safety_crisis :: "jsval \<Rightarrow> bool" where
  "safety_crisis data =
     (case get_prop data ''safety'' of
        Inl e \<Rightarrow> False
      | Inr safety \<Rightarrow>
          truthy safety \<and> (case get_prop safety ''crisis'' of Inl e \<Rightarrow> False | Inr c \<Rightarrow> truthy c))"

text \<open>
  Rendering a bot reply: the three calls that every reply path makes.
  \<^verbatim>\<open>
  const rscore = scoreText(reply);
  addMessageToUI(reply, 'bot', { ts: Date.now(), score: rscore.score, emotion: rscore.emotion });
  pushToTranscript('bot', reply, rscore);
  pushToTimeline(rscore);
  \<close>
  Every caller passes a truthy reply. When it is not a string, \<^verbatim>\<open>scoreText\<close> throws
  before anything is rendered.
\<close>

definition render_reply :: "jsval \<Rightarrow> session \<Rightarrow> error + session" where
  "render_reply reply s =
     (case scoreText reply of
        Inl e \<Rightarrow> Inl e
      | Inr r \<Rightarrow>
          (case reply of
             JStr txt \<Rightarrow>
               (let rscore = props r;
                    (now, s1) = Date_now s;
                    s2 = addMessageToUI txt ''bot''
                           \<lparr>meta_ts = now, meta_score = score rscore, meta_emotion = emotion rscore\<rparr> s1;
                    s3 = pushToTranscript ''bot'' txt rscore s2
                in Inr (pushToTimeline rscore s3))
           | _ \<Rightarrow> Inl TypeError))"

text \<open>
  The body of \<^verbatim>\<open>try\<close>. Everything that can throw does so before the first write to
  the state.
  \<^verbatim>\<open>
  const resp = await fetch(CONFIG.SERVER_ENDPOINT, { ... body: JSON.stringify({ message: text }) });
  if (!resp.ok) throw new Error('Server error');
  const data = await resp.json();
  const reply = data.reply || "Sorry, I'm having trouble responding right now.";
  const serverScore = scoreText(reply);
  addMessageToUI(reply, 'bot', { ... });
  pushToTranscript('bot', reply, serverScore);
  pushToTimeline(serverScore);
  if (data.safety && data.safety.crisis) { escalateToCrisis(); }
  \<close>
\<close>

definition try_server :: "fetch_result \<Rightarrow> session \<Rightarrow> error + session" where
  "try_server resp s =
     (case resp of
        FetchRejected \<Rightarrow> Inl Rejected
      | Response ok body \<Rightarrow>
          if \<not> ok then Inl ServerError
          else case body of
                 None \<Rightarrow> Inl Rejected
               | Some data \<Rightarrow>
                   (case get_prop data ''reply'' of
                      Inl e \<Rightarrow> Inl e
                    | Inr v \<Rightarrow>
                        (let reply = (if truthy v then v else JStr APOLOGY)
                         in case render_reply reply s of
                              Inl e \<Rightarrow> Inl e
                            | Inr s1 \<Rightarrow>
                                Inr (if safety_crisis data then escalateToCrisis s1 else s1))))"

text \<open>
  The local path, which is also the body of \<^verbatim>\<open>catch\<close>:
  \<^verbatim>\<open>
  const reply = localReply(text, scoreObj);
  if (reply) { const rscore = scoreText(reply); ... }
  \<close>
  The result is the exception that leaves the block, if any, and the state at that point.
\<close>

definition local_path :: "string \<Rightarrow> score_obj \<Rightarrow> real \<Rightarrow> session \<Rightarrow> error option \<times> session" where
  "local_path txt scoreObj r s =
     (case localReply (JStr txt) scoreObj r s of
        Inl e \<Rightarrow> (Some e, s)
      | Inr (reply, s1) \<Rightarrow>
          (case reply of
             None \<Rightarrow> (None, s1)
           | Some rep \<Rightarrow>
               if rep = [] then (None, s1)
               else (case render_reply (JStr rep) s1 of
                       Inl e \<Rightarrow> (Some e, s1)
                     | Inr s2 \<Rightarrow> (None, s2))))"

text \<open>
  The handler of the form's \<^verbatim>\<open>submit\<close> event. \<open>input\<close> is \<^verbatim>\<open>inputEl.value\<close>,
  \<open>useServer\<close> the state of the check box, \<open>resp\<close> what the server call gives if it is
  made, \<open>r\<close> the value of \<^verbatim>\<open>Math.random()\<close> if it is called. The pause of
  \<^verbatim>\<open>RESPONSE_DELAY_MS\<close> and the clearing of the input field are left out.
  \<^verbatim>\<open>
  const text = inputEl.value.trim();
  if (!text) return;
  const scoreObj = scoreText(text);
  addMessageToUI(text, 'user', { ts: Date.now(), score: scoreObj.score, emotion: scoreObj.emotion });
  pushToTranscript('user', text, scoreObj);
  pushToTimeline(scoreObj);
  typingIndicator.hidden = false;
  if (detectCrisis(text)) {
    typingIndicator.hidden = true;
    escalateToCrisis();
    pushToTranscript('bot', 'Crisis escalation message', { score: -1, emotion: 'crisis' });
    return;
  }
  if (useServer) {
    try { ... } catch (err) { ... } finally { typingIndicator.hidden = true; }
  } else {
    ...
    typingIndicator.hidden = true;
  }
  \<close>
\<close>

definition render_user :: "string \<Rightarrow> score_obj \<Rightarrow> session \<Rightarrow> session" where
  "render_user txt scoreObj s =
     (let (now, s1) = Date_now s;
          s2 = addMessageToUI txt ''user''
                 \<lparr>meta_ts = now, meta_score = score scoreObj, meta_emotion = emotion scoreObj\<rparr> s1;
          s3 = pushToTranscript ''user'' txt scoreObj s2;
          s4 = pushToTimeline scoreObj s3
      in s4\<lparr>typingIndicator_hidden := False\<rparr>)"

definition crisis_path :: "session \<Rightarrow> session" where
  "crisis_path s =
     (let s1 = s\<lparr>typingIndicator_hidden := True\<rparr>;
          s2 = escalateToCrisis s1
      in pushToTranscript ''bot'' ''Crisis escalation message''
           \<lparr>score = Some (Num (- 1)), emotion = Some ''crisis'', count = None\<rparr> s2)"

definition server_path :: "string \<Rightarrow> score_obj \<Rightarrow> fetch_result \<Rightarrow> real \<Rightarrow> session \<Rightarrow> session" where
  "server_path txt scoreObj resp r s =
     (let s1 = (case try_server resp s of
                  Inr s' \<Rightarrow> s'
                | Inl err \<Rightarrow> snd (local_path txt scoreObj r s))
      in s1\<lparr>typingIndicator_hidden := True\<rparr>)"

definition submit :: "string \<Rightarrow> bool \<Rightarrow> fetch_result \<Rightarrow> real \<Rightarrow> session \<Rightarrow> session" where
  "submit input useServer resp r s =
     (let txt = trim input
      in if txt = [] then s
         else case scoreText (JStr txt) of
                Inl e \<Rightarrow> s
              | Inr ret \<Rightarrow>
                  (let scoreObj = props ret;
                       s1 = render_user txt scoreObj s
                   in case detectCrisis (JStr txt) of
                        Inl e \<Rightarrow> s1
                      | Inr True \<Rightarrow> crisis_path s1
                      | Inr False \<Rightarrow>
                          if useServer then server_path txt scoreObj resp r s1
                          else (case local_path txt scoreObj r s1 of
                                  (Some e, s2) \<Rightarrow> s2
                                | (None, s2) \<Rightarrow> s2\<lparr>typingIndicator_hidden := True\<rparr>)))"

text \<open>
  The page before the script runs: nothing is rendered or recorded. The overlay and the
  typing indicator are taken to start hidden; the markup of the page is not among the
  sources. \<open>clk\<close> is the clock that \<^verbatim>\<open>Date.now()\<close> reads.
\<close>

definition blank_page :: "(nat \<Rightarrow> nat) \<Rightarrow> session" where
  "blank_page clk =
     \<lparr>transcript = [], emotionTimeline = [], chart_labels = [], chart_data = [],
      messages = [], crisisOverlay_hidden = True, typingIndicator_hidden = True,
      clock = clk, reads = 0\<rparr>"

definition GREETING :: string where
  "GREETING = ''Hello '' @ [CHR 0xE2, CHR 0x80, CHR 0x94] @ '' I'm here to listen. You can type anything, try a coping tool, or toggle server LLM for richer responses.''"

text \<open>
  The last three lines of \<^verbatim>\<open>app.js\<close>:
  \<^verbatim>\<open>
  addMessageToUI("Hello ...", 'bot', { ts: Date.now(), score: 0, emotion: 'neutral' });
  pushToTranscript('bot', "Greeting", { score: 0, emotion: 'neutral' });
  pushToTimeline({ score: 0, emotion: 'neutral', count: 0 });
  \<close>
\<close>

definition startup :: "(nat \<Rightarrow> nat) \<Rightarrow> session" where
  "startup clk =
     (let (now, s1) = Date_now (blank_page clk);
          s2 = addMessageToUI GREETING ''bot''
                 \<lparr>meta_ts = now, meta_score = Some (Num 0), meta_emotion = Some ''neutral''\<rparr> s1;
          s3 = pushToTranscript ''bot'' ''Greeting''
                 \<lparr>score = Some (Num 0), emotion = Some ''neutral'', count = None\<rparr> s2
      in pushToTimeline \<lparr>score = Some (Num 0), emotion = Some ''neutral'', count = Some 0\<rparr> s3)"

text \<open>A turn is one submit: the input, the check box, what the server call would give and
  what \<^verbatim>\<open>Math.random()\<close> would give. Turns run one after the other.\<close>

type_synonym turn = "string \<times> bool \<times> fetch_result \<times> real"

definition run_turn :: "turn \<Rightarrow> session \<Rightarrow> session" where
  "run_turn tn s = (case tn of (input, useServer, resp, r) \<Rightarrow> submit input useServer resp r s)"

definition run_turns :: "turn list \<Rightarrow> session \<Rightarrow> session" where
  "run_turns tns s = fold run_turn tns s"

section \<open>The server\<close>

text \<open>\<^verbatim>\<open>String.prototype.includes\<close>.\<close>

fun str_includes :: "string \<Rightarrow> string \<Rightarrow> bool" where
  "str_includes [] sub = (sub = [])"
| "str_includes (c # cs) sub = (prefix sub (c # cs) \<or> str_includes cs sub)"

definition SAFE_TEXT :: string where
  "SAFE_TEXT = ''I'm concerned for your safety. If you are in immediate danger, please call your local emergency number now. Would you like crisis line information or someone to contact?''"

definition server_generics :: "string list" where
  "server_generics =
     [''Thanks for sharing that '' @ [CHR 0xE2, CHR 0x80, CHR 0x94] @ '' I'm listening. Can you tell me more?'',
      ''That sounds important. How long have you felt this way?'',
      ''I appreciate you telling me this. What would help you right now?'']"

text \<open>
  \<^verbatim>\<open>
  function generateDeterministicReply(text) {
    const lowered = text.toLowerCase();
    if (lowered.includes('help') && lowered.includes('anx')) { return "I hear you're ..."; }
    if (lowered.includes('sad') || lowered.includes('depress')) { return "I'm sorry you're ..."; }
    const generics = [...];
    return generics[Math.floor(Math.random() * generics.length)];
  }
  \<close>
\<close>

definition generateDeterministicReply :: "string \<Rightarrow> real \<Rightarrow> string option" where
  "generateDeterministicReply txt r =
     (let lowered = toLowerCase txt
      in if str_includes lowered ''help'' \<and> str_includes lowered ''anx''
         then Some ''I hear you're feeling anxious. Would you like a short breathing exercise? We can try one together.''
         else if str_includes lowered ''sad'' \<or> str_includes lowered ''depress''
         then Some ''I'm sorry you're feeling sad. Want to tell me more about what's been happening lately?''
         else random_pick server_generics r)"

text \<open>
  The language model behind the server: no client is configured, or the call throws, or it
  returns a completion whose \<^verbatim>\<open>content\<close> is a string or is missing.
\<close>

datatype llm = NoClient | CallThrows | Completion "string option"

text \<open>\<^verbatim>\<open>res.json({ reply, safety: { crisis, moderated } })\<close>, as the client parses it:
  \<^verbatim>\<open>JSON.stringify\<close> drops a property whose value is \<^verbatim>\<open>undefined\<close>.\<close>

definition reply_json :: "string option \<Rightarrow> bool \<Rightarrow> bool \<Rightarrow> jsval" where
  "reply_json reply crisis moderated =
     JObj ((case reply of Some txt \<Rightarrow> [(''reply'', JStr txt)] | None \<Rightarrow> []) @
           [(''safety'', JObj [(''crisis'', JBool crisis), (''moderated'', JBool moderated)])])"

text \<open>
  The handler of \<^verbatim>\<open>POST /api/chat\<close>: the status and the JSON body it sends for the
  request body \<open>body\<close>. The append to \<^verbatim>\<open>session_log.jsonl\<close> is left out.
  \<^verbatim>\<open>
  try {
    const { message } = req.body;
    if (!message || typeof message !== 'string') return res.status(400).json({ error: 'Invalid message' });
    const crisis = detectCrisisServer(message);
    if (crisis) { return res.json({ reply: safeText, safety: { crisis: true, moderated: true } }); }
    if (openaiClient) {
      try {
        const completion = await openaiClient.createChatCompletion({ ... });
        const reply = completion.data?.choices?.[0]?.message?.content?.trim();
        if (!reply) throw new Error('Empty reply from LLM');
        return res.json({ reply, safety: { crisis: false, moderated: false } });
      } catch (openErr) { }
    }
    const fallback = generateDeterministicReply(message);
    return res.json({ reply: fallback, safety: { crisis: false, moderated: false } });
  } catch (err) { return res.status(500).json({ error: 'Server error' }); }
  \<close>
\<close>

definition llm_reply :: "llm \<Rightarrow> error + string" where
  "llm_reply m =
     (case m of
        NoClient \<Rightarrow> Inl EmptyReply
      | CallThrows \<Rightarrow> Inl EmptyReply
      | Completion None \<Rightarrow> Inl EmptyReply
      | Completion (Some content) \<Rightarrow>
          (let reply = trim content in if reply = [] then Inl EmptyReply else Inr reply))"

definition api_chat :: "llm \<Rightarrow> real \<Rightarrow> jsval \<Rightarrow> nat \<times> jsval" where
  "api_chat m r body =
     (case get_prop body ''message'' of
        Inl e \<Rightarrow> (500, JObj [(''error'', JStr ''Server error'')])
      | Inr message \<Rightarrow>
          (case message of
             JStr txt \<Rightarrow>
               if txt = [] then (400, JObj [(''error'', JStr ''Invalid message'')])
               else (case detectCrisisServer (JStr txt) of
                       Inl e \<Rightarrow> (500, JObj [(''error'', JStr ''Server error'')])
                     | Inr True \<Rightarrow> (200, reply_json (Some SAFE_TEXT) True True)
                     | Inr False \<Rightarrow>
                         (case (if m = NoClient then Inl EmptyReply else llm_reply m) of
                            Inr reply \<Rightarrow> (200, reply_json (Some reply) False False)
                          | Inl e \<Rightarrow>
                              (200, reply_json (generateDeterministicReply txt r) False False)))
           | _ \<Rightarrow> (400, JObj [(''error'', JStr ''Invalid message'')])))"

text \<open>The client's request \<^verbatim>\<open>{ message: text }\<close> answered by this server:
  \<^verbatim>\<open>resp.ok\<close> is a status from 200 to 299.\<close>

definition fetch_server :: "llm \<Rightarrow> real \<Rightarrow> string \<Rightarrow> fetch_result" where
  "fetch_server m r txt =
     (let (status, body) = api_chat m r (JObj [(''message'', JStr txt)])
      in Response (200 \<le> status \<and> status < 300) (Some body))"

section \<open>Notions used to state the properties\<close>

text \<open>The lexicon entries (valence, emotion) of the tokens that are in the lexicon, in the
  order of the tokens.\<close>

definition own_entries :: "string list \<Rightarrow> (real \<times> string) list" where
  "own_entries toks = concat (map (\<lambda>tok. case map_of LEXICON tok of Some p \<Rightarrow> [p] | None \<Rightarrow> []) toks)"

text \<open>\<open>first_max ms i\<close>: entry \<open>i\<close> is the first of \<open>ms\<close> whose absolute valence is
  the largest of all.\<close>

definition first_max :: "(real \<times> string) list \<Rightarrow> nat \<Rightarrow> bool" where
  "first_max ms i =
     (i < length ms \<and> (\<forall>j < length ms. \<bar>fst (ms ! j)\<bar> \<le> \<bar>fst (ms ! i)\<bar>) \<and>
      (\<forall>j < i. \<bar>fst (ms ! j)\<bar> < \<bar>fst (ms ! i)\<bar>))"

text \<open>What holds of the loop variables after the tokens with entries \<open>ms\<close>.\<close>

definition dominant_inv :: "loop_vars \<Rightarrow> (real \<times> string) list \<Rightarrow> bool" where
  "dominant_inv a ms =
     (\<exists>h. highestAbs a = Num h \<and> 0 \<le> h \<and> (\<forall>j < length ms. \<bar>fst (ms ! j)\<bar> \<le> h) \<and>
          (dominantEmotion a = None \<and> h = 0 \<or>
           (\<exists>i. first_max ms i \<and> dominantEmotion a = Some (snd (ms ! i)) \<and>
                \<bar>fst (ms ! i)\<bar> = h \<and> 0 < h)))"

text \<open>A list cut back to 80 elements after one push: above 80 the oldest goes.\<close>

definition window80 :: "'a list \<Rightarrow> 'a list" where
  "window80 xs = (if length xs > 80 then tl xs else xs)"

text \<open>The message that \<^verbatim>\<open>escalateToCrisis\<close> renders, with the time it reads.\<close>

definition crisis_bubble :: "nat \<Rightarrow> message" where
  "crisis_bubble now =
     \<lparr>msg_text = CRISIS_MESSAGE, msg_sender = ''bot'', msg_meta = Some (''crisis'', Num (- 1), now)\<rparr>"

text \<open>A timeline event for examples.\<close>

definition event0 :: timeline_event where
  "event0 = \<lparr>ev_t = 0, ev_obj = \<lparr>score = Some (Num 0), emotion = Some ''neutral'', count = Some 0\<rparr>\<rparr>"

text \<open>The message rendered for the user's text, and the one for a reply.\<close>

definition user_bubble :: "string \<Rightarrow> score_obj \<Rightarrow> nat \<Rightarrow> message" where
  "user_bubble txt ob now =
     \<lparr>msg_text = txt, msg_sender = ''user'',
      msg_meta = (case score ob of None \<Rightarrow> None
                  | Some sc \<Rightarrow> Some (string_or (emotion ob) ''sentiment'', sc, now))\<rparr>"

definition bot_bubble :: "string \<Rightarrow> score_obj \<Rightarrow> nat \<Rightarrow> message" where
  "bot_bubble txt ob now =
     \<lparr>msg_text = txt, msg_sender = ''bot'',
      msg_meta = (case score ob of None \<Rightarrow> None
                  | Some sc \<Rightarrow> Some (string_or (emotion ob) ''sentiment'', sc, now))\<rparr>"

text \<open>The transcript entry that \<^verbatim>\<open>pushToTranscript\<close> builds.\<close>

definition entry :: "string \<Rightarrow> string \<Rightarrow> score_obj \<Rightarrow> nat \<Rightarrow> transcript_entry" where
  "entry sd txt ob now =
     \<lparr>te_sender = sd, te_text = txt, te_ts = now, te_score = score ob,
      te_emotion = emotion ob, te_lexCount = count ob\<rparr>"

text \<open>The literal \<^verbatim>\<open>{ score: -1, emotion: 'crisis' }\<close> of the crisis branch.\<close>

definition CRISIS_OBJ :: score_obj where
  "CRISIS_OBJ = \<lparr>score = Some (Num (- 1)), emotion = Some ''crisis'', count = None\<rparr>"

text \<open>What a turn that renders the reply \<open>reply\<close> after the state \<open>s\<close> leaves behind.\<close>

definition replied :: "string \<Rightarrow> score_obj \<Rightarrow> session \<Rightarrow> session \<Rightarrow> bool" where
  "replied reply ob s s' =
     (messages s' = messages s @ [bot_bubble reply ob (clock s (reads s))] \<and>
      transcript s' = transcript s @ [entry ''bot'' reply ob (clock s (reads s + 1))] \<and>
      emotionTimeline s' =
        window80 (emotionTimeline s @ [\<lparr>ev_t = clock s (reads s + 2), ev_obj = ob\<rparr>]) \<and>
      crisisOverlay_hidden s' = crisisOverlay_hidden s \<and>
      typingIndicator_hidden s' = typingIndicator_hidden s \<and>
      clock s' = clock s \<and> reads s' = reads s + 3)"

text \<open>The reply that the client takes from the parsed body \<open>data\<close>.\<close>

definition server_reply :: "jsval \<Rightarrow> string option" where
  "server_reply data =
     (case get_prop data ''reply'' of
        Inl e \<Rightarrow> None
      | Inr v \<Rightarrow> if \<not> truthy v then Some APOLOGY
                else (case v of JStr txt \<Rightarrow> Some txt | _ \<Rightarrow> None))"

text \<open>What \<^verbatim>\<open>scoreText\<close> returns for a text without a match.\<close>

definition NEUTRAL_OBJ :: score_obj where
  "NEUTRAL_OBJ = \<lparr>score = Some (Num 0), emotion = Some ''neutral'', count = Some 0\<rparr>"

text \<open>A response of some server that flags a crisis, for examples.\<close>

definition flagged_body :: jsval where
  "flagged_body =
     JObj [(''reply'', JStr ''Please call for help''), (''safety'', JObj [(''crisis'', JBool True)])]"

text \<open>A response that flags a crisis and whose reply is not a string, for examples.\<close>

definition unusable_body :: jsval where
  "unusable_body =
     JObj [(''reply'', JNum 123), (''safety'', JObj [(''crisis'', JBool True)])]"

section \<open>Properties of crisis detection\<close>

lemma code_toLowerChar:
  "(of_char (toLowerChar c) :: nat) =
     (if 65 \<le> (of_char c :: nat) \<and> (of_char c :: nat) \<le> 90 then of_char c + 32 else of_char c)"
  by (simp add: toLowerChar_def)

lemma code_toUpperChar:
  "(of_char (toUpperChar c) :: nat) =
     (if 97 \<le> (of_char c :: nat) \<and> (of_char c :: nat) \<le> 122 then of_char c - 32 else of_char c)"
proof -
  have "(of_char c :: nat) - 32 < 256"
    using nat_of_char_less_256 [of c] by arith
  then show ?thesis
    by (simp add: toUpperChar_def)
qed

lemma Canonicalize_lowered:
  assumes "\<not> (65 \<le> (of_char p :: nat) \<and> (of_char p :: nat) \<le> 90)"
  shows "(Canonicalize p = Canonicalize (toLowerChar c)) = (p = toLowerChar c)"
proof -
  define n :: nat where "n = of_char p"
  define k :: nat where "k = of_char c"
  define m :: nat where "m = (if 65 \<le> k \<and> k \<le> 90 then k + 32 else k)"
  have m: "(of_char (toLowerChar c) :: nat) = m"
    by (simp add: code_toLowerChar m_def k_def)
  have "(toUpperChar p = toUpperChar (toLowerChar c)) =
        ((of_char (toUpperChar p) :: nat) = of_char (toUpperChar (toLowerChar c)))"
    by simp
  also have "\<dots> = ((if 97 \<le> n \<and> n \<le> 122 then n - 32 else n) =
                   (if 97 \<le> m \<and> m \<le> 122 then m - 32 else m))"
    unfolding code_toUpperChar m n_def ..
  also have "\<dots> = (n = m)"
    using assms unfolding n_def [symmetric] m_def by (simp split: if_splits) arith
  also have "\<dots> = (p = toLowerChar c)"
    unfolding n_def m [symmetric] by simp
  finally show ?thesis
    by (simp add: Canonicalize_def)
qed

lemma match_here_lowered:
  "no_upper p \<Longrightarrow> match_here p (map toLowerChar s) = prefix p (map toLowerChar s)"
proof (induction p arbitrary: s)
  case Nil
  show ?case by simp
next
  case (Cons a p)
  show ?case
  proof (cases s)
    case Nil
    then show ?thesis by simp
  next
    case (Cons c cs)
    from Cons.prems have a: "\<not> (65 \<le> (of_char a :: nat) \<and> (of_char a :: nat) \<le> 90)"
      and p: "no_upper p"
      by (simp_all add: no_upper_def)
    show ?thesis
      using Cons.IH [OF p, of cs] Canonicalize_lowered [OF a, of c]
      by (auto simp: Cons)
  qed
qed

lemma test_from_lowered:
  "no_upper p \<Longrightarrow> test_from p (map toLowerChar s) = sublist p (map toLowerChar s)"
proof (induction s)
  case Nil
  then show ?case
    using match_here_lowered [of p "[]"] by simp
next
  case (Cons c cs)
  then show ?case
    using match_here_lowered [of p "c # cs"] by (simp add: sublist_Cons_right)
qed

lemma no_upper_crisis_phrases: "list_all no_upper crisis_phrases"
  by (simp add: crisis_phrases_def no_upper_def)

lemma CRISIS_PATTERNS_phrases: "CRISIS_PATTERNS = map Literal_i crisis_phrases"
  by (simp add: CRISIS_PATTERNS_def crisis_phrases_def)

lemma detectCrisis_string:
  "detectCrisis (JStr s) = Inr (\<exists>p \<in> set crisis_phrases. sublist p (toLowerCase s))"
proof -
  have "list_ex (\<lambda>re. regexp_test re (toLowerCase s)) CRISIS_PATTERNS =
        (\<exists>p \<in> set crisis_phrases. test_from p (toLowerCase s))"
    by (simp add: CRISIS_PATTERNS_phrases list_ex_iff)
  also have "\<dots> = (\<exists>p \<in> set crisis_phrases. sublist p (toLowerCase s))"
    using no_upper_crisis_phrases test_from_lowered [of _ s]
    by (auto simp: list_all_iff toLowerCase_def)
  finally have main: "list_ex (\<lambda>re. regexp_test re (toLowerCase s)) CRISIS_PATTERNS =
        (\<exists>p \<in> set crisis_phrases. sublist p (toLowerCase s))" .
  show ?thesis
  proof (cases "s = []")
    case True
    then show ?thesis
      by (simp add: detectCrisis_def detectWith_def crisis_phrases_def toLowerCase_def)
  next
    case False
    then show ?thesis
      using main by (simp add: detectCrisis_def detectWith_def)
  qed
qed

lemma detectWith_falsy: "\<not> truthy v \<Longrightarrow> detectWith ps v = Inr False"
  by (simp add: detectWith_def)

text \<open>The result depends on the set of patterns only, not on their order.\<close>

lemma detectWith_set: "set ps = set qs \<Longrightarrow> detectWith ps v = detectWith qs v"
  by (cases v) (simp_all add: detectWith_def list_ex_iff)

text \<open>A phrase occurs in the lower-cased text exactly when some stretch of the text itself
  lower-cases to the phrase: the match ignores the case of the text.\<close>

lemma sublist_toLowerCase:
  "sublist p (toLowerCase s) = (\<exists>m. sublist m s \<and> toLowerCase m = p)"
proof
  assume "sublist p (toLowerCase s)"
  then obtain u v where "map toLowerChar s = u @ (p @ v)"
    by (auto simp: sublist_def toLowerCase_def)
  then have "\<exists>a r. s = a @ r \<and> u = map toLowerChar a \<and> p @ v = map toLowerChar r"
    by (simp only: map_eq_append_conv)
  then obtain a r where s: "s = a @ r" and pv: "p @ v = map toLowerChar r"
    by blast
  from pv have "\<exists>b c. r = b @ c \<and> p = map toLowerChar b \<and> v = map toLowerChar c"
    by (simp only: append_eq_map_conv)
  then obtain b c where "r = b @ c" and "map toLowerChar b = p"
    by blast
  with s have "sublist b s" "toLowerCase b = p"
    by (auto simp: toLowerCase_def)
  then show "\<exists>m. sublist m s \<and> toLowerCase m = p"
    by blast
next
  assume "\<exists>m. sublist m s \<and> toLowerCase m = p"
  then obtain m u v where "s = u @ m @ v" and "toLowerCase m = p"
    by (auto simp: sublist_def)
  then have "toLowerCase s = toLowerCase u @ p @ toLowerCase v"
    by (simp add: toLowerCase_def)
  then show "sublist p (toLowerCase s)"
    by (metis sublist_appendI)
qed

text \<open>
  Claim C1. The crisis detector is a function of its input alone. It returns false for
  \<^verbatim>\<open>undefined\<close>, \<^verbatim>\<open>null\<close> and the empty string. For a string it returns true
  exactly when one of the eight phrases occurs in the lower-cased string, that is, when a
  stretch of the string is one of the phrases up to case. Which pattern is listed first
  makes no difference: the reversed list gives the same answer.
\<close>

theorem detectCrisis_spec:
  "detectCrisis JUndefined = Inr False \<and>
   detectCrisis JNull = Inr False \<and>
   detectCrisis (JStr []) = Inr False \<and>
   detectCrisis (JStr s) = Inr (\<exists>p \<in> set crisis_phrases. sublist p (toLowerCase s)) \<and>
   detectCrisis (JStr s) = Inr (\<exists>p \<in> set crisis_phrases. \<exists>m. sublist m s \<and> toLowerCase m = p) \<and>
   detectWith (rev CRISIS_PATTERNS) v = detectCrisis v"
proof -
  have r: "detectWith (rev CRISIS_PATTERNS) v = detectCrisis v"
    unfolding detectCrisis_def by (rule detectWith_set) simp
  have e: "detectCrisis (JStr []) = Inr False" "detectCrisis JNull = Inr False"
    "detectCrisis JUndefined = Inr False"
    by (simp_all add: detectCrisis_def detectWith_falsy)
  have m: "detectCrisis (JStr s) = Inr (\<exists>p \<in> set crisis_phrases. \<exists>m. sublist m s \<and> toLowerCase m = p)"
    unfolding detectCrisis_string sublist_toLowerCase ..
  show ?thesis
    using r e m detectCrisis_string [of s] by simp
qed

theorem detectCrisis_spec_witness:
  "detectCrisis (JStr ''I Want To DIE'') = Inr True \<and>
   detectCrisis (JStr ''I want to diet'') = Inr True \<and>
   detectCrisis (JStr ''I can't go on'') = Inr False"
proof -
  have a: "(\<exists>p \<in> set crisis_phrases. sublist p (toLowerCase ''I Want To DIE'')) = True"
    by code_simp
  have b: "(\<exists>p \<in> set crisis_phrases. sublist p (toLowerCase ''I want to diet'')) = True"
    by code_simp
  have c: "(\<exists>p \<in> set crisis_phrases. sublist p (toLowerCase ''I can't go on'')) = False"
    by code_simp
  note d = conjunct1 [OF conjunct2 [OF conjunct2 [OF conjunct2 [OF detectCrisis_spec]]]]
  show ?thesis
    using d [of "''I Want To DIE''"] d [of "''I want to diet''"] d [of "''I can't go on''"]
    unfolding a b c by simp
qed

section \<open>Properties of the sentiment scorer\<close>

lemma LEXICON_get_Own: "(LEXICON_get tok = Own v e) = (map_of LEXICON tok = Some (v, e))"
  by (auto simp: LEXICON_get_def split: option.splits)

lemma lexicon_emotions: "map_of LEXICON tok = Some (v, e) \<Longrightarrow> e \<noteq> [] \<and> (v = 0 \<longrightarrow> e = ''neutral'') \<and> \<bar>v\<bar> \<le> 1"
  by (auto simp: LEXICON_def split: if_splits)

lemma each_token_Missing: "LEXICON_get tok = Missing \<Longrightarrow> each_token a tok = a"
  by (simp add: each_token_def)

lemma each_token_Inherited:
  "LEXICON_get tok = Inherited \<Longrightarrow>
   each_token a tok = a\<lparr>sum_v := NaN, count_v := count_v a + 1\<rparr>"
  by (cases "sum_v a") (simp_all add: each_token_def lex_score_def Let_def)

lemma each_token_Own:
  "LEXICON_get tok = Own v e \<Longrightarrow> highestAbs a = Num h \<Longrightarrow>
   each_token a tok =
     (if \<bar>v\<bar> > h
      then a\<lparr>sum_v := js_add (sum_v a) (Num v), count_v := count_v a + 1,
             highestAbs := Num \<bar>v\<bar>, dominantEmotion := Some e\<rparr>
      else a\<lparr>sum_v := js_add (sum_v a) (Num v), count_v := count_v a + 1\<rparr>)"
  by (simp add: each_token_def lex_score_def lex_emotion_def Let_def)


lemma first_max_keep:
  "first_max ms i \<Longrightarrow> \<bar>v\<bar> \<le> \<bar>fst (ms ! i)\<bar> \<Longrightarrow> first_max (ms @ [(v, e)]) i"
  by (auto simp: first_max_def nth_append less_Suc_eq)

lemma first_max_new:
  "\<forall>j < length ms. \<bar>fst (ms ! j)\<bar> < \<bar>v\<bar> \<Longrightarrow> first_max (ms @ [(v, e)]) (length ms)"
  by (auto simp: first_max_def nth_append less_Suc_eq)

lemma own_entries_snoc:
  "own_entries (toks @ [tok]) =
     own_entries toks @ (case map_of LEXICON tok of Some p \<Rightarrow> [p] | None \<Rightarrow> [])"
  by (simp add: own_entries_def)

lemma dominant_inv_init: "dominant_inv loop_init []"
  by (simp add: dominant_inv_def loop_init_def)

lemma dominant_inv_step:
  assumes inv: "dominant_inv a (own_entries toks)"
  shows "dominant_inv (each_token a tok) (own_entries (toks @ [tok]))"
proof (cases "LEXICON_get tok")
  case Missing
  then have "map_of LEXICON tok = None"
    by (auto simp: LEXICON_get_def split: option.splits if_splits)
  with Missing inv show ?thesis
    by (simp add: each_token_Missing own_entries_snoc)
next
  case Inherited
  then have "map_of LEXICON tok = None"
    by (auto simp: LEXICON_get_def split: option.splits if_splits)
  with Inherited inv show ?thesis
    by (simp add: each_token_Inherited own_entries_snoc dominant_inv_def)
next
  case (Own v e)
  then have m: "map_of LEXICON tok = Some (v, e)"
    by (simp add: LEXICON_get_Own)
  define ms where "ms = own_entries toks"
  from inv obtain h where h: "highestAbs a = Num h" "0 \<le> h"
    and le: "\<forall>j < length ms. \<bar>fst (ms ! j)\<bar> \<le> h"
    and dom: "dominantEmotion a = None \<and> h = 0 \<or>
           (\<exists>i. first_max ms i \<and> dominantEmotion a = Some (snd (ms ! i)) \<and>
                \<bar>fst (ms ! i)\<bar> = h \<and> 0 < h)"
    unfolding dominant_inv_def ms_def by blast
  have snoc: "own_entries (toks @ [tok]) = ms @ [(v, e)]"
    by (simp add: own_entries_snoc m ms_def)
  show ?thesis
  proof (cases "\<bar>v\<bar> > h")
    case True
    then have a': "each_token a tok =
        a\<lparr>sum_v := js_add (sum_v a) (Num v), count_v := count_v a + 1,
          highestAbs := Num \<bar>v\<bar>, dominantEmotion := Some e\<rparr>"
      using each_token_Own [OF Own h(1)] by simp
    from le True have "\<forall>j < length ms. \<bar>fst (ms ! j)\<bar> < \<bar>v\<bar>"
      by fastforce
    then have fm: "first_max (ms @ [(v, e)]) (length ms)"
      by (rule first_max_new)
    have le': "\<forall>j < length (ms @ [(v, e)]). \<bar>fst ((ms @ [(v, e)]) ! j)\<bar> \<le> \<bar>v\<bar>"
      using le True by (auto simp: nth_append less_Suc_eq)
    show ?thesis
      unfolding dominant_inv_def snoc a'
      using fm le' True h(2) by (intro exI [of _ "\<bar>v\<bar>"]) (auto intro!: exI [of _ "length ms"])
  next
    case False
    then have a': "each_token a tok =
        a\<lparr>sum_v := js_add (sum_v a) (Num v), count_v := count_v a + 1\<rparr>"
      using each_token_Own [OF Own h(1)] by simp
    have le': "\<forall>j < length (ms @ [(v, e)]). \<bar>fst ((ms @ [(v, e)]) ! j)\<bar> \<le> h"
      using le False by (auto simp: nth_append less_Suc_eq)
    from dom show ?thesis
    proof
      assume "dominantEmotion a = None \<and> h = 0"
      then show ?thesis
        unfolding dominant_inv_def snoc a' using h le' by auto
    next
      assume "\<exists>i. first_max ms i \<and> dominantEmotion a = Some (snd (ms ! i)) \<and>
                \<bar>fst (ms ! i)\<bar> = h \<and> 0 < h"
      then obtain i where i: "first_max ms i" "dominantEmotion a = Some (snd (ms ! i))"
        "\<bar>fst (ms ! i)\<bar> = h" "0 < h"
        by blast
      from i(1,3) False have fm: "first_max (ms @ [(v, e)]) i"
        by (intro first_max_keep) auto
      from i(1) have il: "i < length ms"
        by (simp add: first_max_def)
      show ?thesis
        unfolding dominant_inv_def snoc a'
        using fm h le' i il by (intro exI [of _ h]) (auto simp: nth_append intro!: exI [of _ i])
    qed
  qed
qed

lemma dominant_inv_loop: "dominant_inv (foldl each_token loop_init toks) (own_entries toks)"
proof (induction toks rule: rev_induct)
  case Nil
  show ?case
    by (simp add: dominant_inv_init own_entries_def)
next
  case (snoc tok toks)
  then show ?case
    using dominant_inv_step [of "foldl each_token loop_init toks" toks tok] by simp
qed


lemma own_entries_lexicon:
  "p \<in> set (own_entries toks) \<Longrightarrow> \<exists>tok. map_of LEXICON tok = Some p"
  by (auto simp: own_entries_def split: option.splits)

lemma scoreText_string:
  "s \<noteq> [] \<Longrightarrow>
   scoreText (JStr s) =
     (let a = foldl each_token loop_init (tokenize s);
          avg = (if count_v a \<noteq> 0 then js_div (sum_v a) (count_v a) else Num 0)
      in Inr (RetObject
           \<lparr>score = Some (Math_max (Num (- 1)) (Math_min (Num 1) avg)),
            emotion = Some (string_or (dominantEmotion a) ''neutral''),
            count = Some (count_v a)\<rparr>))"
  by (simp add: scoreText_def Let_def)

lemma dominant_emotion_rule:
  assumes "s \<noteq> []"
  shows "\<exists>ob. scoreText (JStr s) = Inr (RetObject ob) \<and>
     (own_entries (tokenize s) = [] \<longrightarrow> emotion ob = Some ''neutral'') \<and>
     (own_entries (tokenize s) \<noteq> [] \<longrightarrow>
        (\<exists>i. first_max (own_entries (tokenize s)) i \<and>
             emotion ob = Some (snd (own_entries (tokenize s) ! i))))"
proof -
  define a where "a = foldl each_token loop_init (tokenize s)"
  define ms where "ms = own_entries (tokenize s)"
  have inv: "dominant_inv a ms"
    unfolding a_def ms_def by (rule dominant_inv_loop)
  then obtain h where h: "highestAbs a = Num h" "0 \<le> h"
    and le: "\<forall>j < length ms. \<bar>fst (ms ! j)\<bar> \<le> h"
    and dom: "dominantEmotion a = None \<and> h = 0 \<or>
           (\<exists>i. first_max ms i \<and> dominantEmotion a = Some (snd (ms ! i)) \<and>
                \<bar>fst (ms ! i)\<bar> = h \<and> 0 < h)"
    unfolding dominant_inv_def by blast
  have lex: "snd p \<noteq> [] \<and> (fst p = 0 \<longrightarrow> snd p = ''neutral'')" if "p \<in> set ms" for p
    using own_entries_lexicon [of p "tokenize s"] that lexicon_emotions [of _ "fst p" "snd p"]
    by (auto simp: ms_def)
  have em: "(ms = [] \<longrightarrow> string_or (dominantEmotion a) ''neutral'' = ''neutral'') \<and>
     (ms \<noteq> [] \<longrightarrow>
        (\<exists>i. first_max ms i \<and> string_or (dominantEmotion a) ''neutral'' = snd (ms ! i)))"
    using dom
  proof
    assume none: "dominantEmotion a = None \<and> h = 0"
    then have so: "string_or (dominantEmotion a) ''neutral'' = ''neutral''"
      by (simp add: string_or_def)
    have "first_max ms 0 \<and> snd (ms ! 0) = ''neutral''" if ne: "ms \<noteq> []"
    proof -
      have z: "fst (ms ! j) = 0" if "j < length ms" for j
        using le none that by fastforce
      have "ms ! 0 \<in> set ms"
        using ne by simp
      then have "snd (ms ! 0) = ''neutral''"
        using lex [of "ms ! 0"] z [of 0] ne by simp
      moreover have "first_max ms 0"
        using ne z by (simp add: first_max_def)
      ultimately show ?thesis
        by simp
    qed
    with so show ?thesis
      by auto
  next
    assume "\<exists>i. first_max ms i \<and> dominantEmotion a = Some (snd (ms ! i)) \<and>
                \<bar>fst (ms ! i)\<bar> = h \<and> 0 < h"
    then obtain i where i: "first_max ms i" "dominantEmotion a = Some (snd (ms ! i))"
      by blast
    then have "ms ! i \<in> set ms"
      by (simp add: first_max_def)
    then have "snd (ms ! i) \<noteq> []"
      using lex [of "ms ! i"] by simp
    with i have "string_or (dominantEmotion a) ''neutral'' = snd (ms ! i)"
      by (simp add: string_or_def)
    with i(1) show ?thesis
      by (auto simp: first_max_def)
  qed
  show ?thesis
    using em unfolding scoreText_string [OF assms] Let_def a_def [symmetric] ms_def [symmetric]
    by simp
qed

text \<open>Without inherited names the sum is a number and the count is the number of matches.\<close>

lemma loop_sum:
  "\<forall>tok \<in> set toks. LEXICON_get tok \<noteq> Inherited \<Longrightarrow>
   sum_v (foldl each_token loop_init toks) = Num (sum_list (map fst (own_entries toks))) \<and>
   count_v (foldl each_token loop_init toks) = length (own_entries toks)"
proof (induction toks rule: rev_induct)
  case Nil
  show ?case
    by (simp add: loop_init_def own_entries_def)
next
  case (snoc tok toks)
  define a where "a = foldl each_token loop_init toks"
  from snoc have IH: "sum_v a = Num (sum_list (map fst (own_entries toks)))"
    "count_v a = length (own_entries toks)"
    by (simp_all add: a_def)
  from dominant_inv_loop [of toks] obtain h where h: "highestAbs a = Num h"
    unfolding dominant_inv_def a_def by blast
  from snoc.prems have ni: "LEXICON_get tok \<noteq> Inherited"
    by simp
  show ?case
  proof (cases "LEXICON_get tok")
    case Missing
    then have "map_of LEXICON tok = None"
      by (auto simp: LEXICON_get_def split: option.splits if_splits)
    with Missing IH show ?thesis
      by (simp add: each_token_Missing own_entries_snoc a_def)
  next
    case Inherited
    with ni show ?thesis
      by simp
  next
    case (Own v e)
    then have m: "map_of LEXICON tok = Some (v, e)"
      by (simp add: LEXICON_get_Own)
    show ?thesis
      using each_token_Own [OF Own h] IH
      by (simp add: own_entries_snoc m a_def [symmetric])
  qed
qed

lemma scoreText_range:
  assumes "s \<noteq> []" and "\<forall>tok \<in> set (tokenize s). tok \<notin> set Object_prototype"
  shows "\<exists>ob r. scoreText (JStr s) = Inr (RetObject ob) \<and> score ob = Some (Num r) \<and>
     - 1 \<le> r \<and> r \<le> 1 \<and>
     r = (if own_entries (tokenize s) = [] then 0
          else max (- 1) (min 1 (sum_list (map fst (own_entries (tokenize s))) /
                                   real (length (own_entries (tokenize s))))))"
proof -
  have "\<forall>tok \<in> set (tokenize s). LEXICON_get tok \<noteq> Inherited"
    using assms(2) by (auto simp: LEXICON_get_def split: option.splits if_splits)
  from loop_sum [OF this] show ?thesis
    unfolding scoreText_string [OF assms(1)] Let_def by auto
qed

text \<open>
  Claim C3. The score field is a number between -1 and 1 for every input: this holds for
  every non-empty string none of whose tokens is a name that objects inherit, where the
  score is 0 without a match and the clamped average of the matched valences otherwise.
  It fails for the falsy inputs, for which \<^verbatim>\<open>scoreText\<close> returns the bare number 0,
  a value without a score field, and it fails for a text with the token
  \<^verbatim>\<open>constructor\<close>, whose score is \<^verbatim>\<open>NaN\<close>.
\<close>

theorem scoreText_score_field:
  "scoreText (JStr []) = Inr (RetNumber 0) \<and>
   scoreText JNull = Inr (RetNumber 0) \<and>
   scoreText JUndefined = Inr (RetNumber 0) \<and>
   score (props (RetNumber 0)) = None \<and>
   scoreText (JStr ''constructor'') =
     Inr (RetObject \<lparr>score = Some NaN, emotion = Some ''neutral'', count = Some 1\<rparr>) \<and>
   (s \<noteq> [] \<and> (\<forall>tok \<in> set (tokenize s). tok \<notin> set Object_prototype) \<longrightarrow>
      (\<exists>ob r. scoreText (JStr s) = Inr (RetObject ob) \<and> score ob = Some (Num r) \<and>
         - 1 \<le> r \<and> r \<le> 1 \<and>
         r = (if own_entries (tokenize s) = [] then 0
              else max (- 1) (min 1 (sum_list (map fst (own_entries (tokenize s))) /
                                       real (length (own_entries (tokenize s))))))))"
proof -
  have a: "scoreText (JStr []) = Inr (RetNumber 0)" "scoreText JNull = Inr (RetNumber 0)"
    "scoreText JUndefined = Inr (RetNumber 0)"
    by (simp_all add: scoreText_def)
  have b: "scoreText (JStr ''constructor'') =
     Inr (RetObject \<lparr>score = Some NaN, emotion = Some ''neutral'', count = Some 1\<rparr>)"
    by code_simp
  show ?thesis
    using a b scoreText_range [of s] by simp
qed

theorem scoreText_score_field_witness:
  "''I feel sad and lonely'' \<noteq> [] \<and>
   set (tokenize ''I feel sad and lonely'') \<inter> set Object_prototype = {} \<and>
   (\<exists>ob. scoreText (JStr ''I feel sad and lonely'') = Inr (RetObject ob) \<and>
      score ob = Some (Num (- 0.7)))"
proof -
  have t: "tokenize ''I feel sad and lonely'' = [''i'', ''feel'', ''sad'', ''and'', ''lonely'']"
    by code_simp
  have n: "''I feel sad and lonely'' \<noteq> [] \<and>
    (\<forall>tok \<in> set (tokenize ''I feel sad and lonely''). tok \<notin> set Object_prototype)"
    unfolding t by (simp add: Object_prototype_def)
  have e: "own_entries (tokenize ''I feel sad and lonely'') = [(- 0.8, ''sadness''), (- 0.6, ''sadness'')]"
    unfolding t by (simp add: own_entries_def LEXICON_def)
  from scoreText_score_field [of "''I feel sad and lonely''"] n
  obtain ob r where "scoreText (JStr ''I feel sad and lonely'') = Inr (RetObject ob)"
    and "score ob = Some (Num r)"
    and "r = (if own_entries (tokenize ''I feel sad and lonely'') = [] then 0
              else max (- 1) (min 1 (sum_list (map fst (own_entries (tokenize ''I feel sad and lonely''))) /
                     real (length (own_entries (tokenize ''I feel sad and lonely'')))))) "
    by blast
  then have "scoreText (JStr ''I feel sad and lonely'') = Inr (RetObject ob) \<and>
      score ob = Some (Num (- 0.7))"
    unfolding e by simp
  moreover have "set (tokenize ''I feel sad and lonely'') \<inter> set Object_prototype = {}"
    unfolding t by (simp add: Object_prototype_def)
  ultimately show ?thesis
    by blast
qed

text \<open>
  Claim C6, as amended. For every non-empty text the dominant emotion is the label of the
  first matched token whose absolute valence is the largest, and \<^verbatim>\<open>neutral\<close> when no
  token matches. The empty string is stopped by the guard of the first line, which returns
  the bare number 0, a value without an emotion; no caller passes it. For
  \<^verbatim>\<open>I feel sad and lonely\<close> the matched valences are -0.8 and -0.6, the score is -0.7
  and the emotion is \<^verbatim>\<open>sadness\<close>.
\<close>

theorem scoreText_dominant_emotion:
  "scoreText (JStr []) = Inr (RetNumber 0) \<and>
   emotion (props (RetNumber 0)) = None \<and>
   (s \<noteq> [] \<longrightarrow>
      (\<exists>ob. scoreText (JStr s) = Inr (RetObject ob) \<and>
         (own_entries (tokenize s) = [] \<longrightarrow> emotion ob = Some ''neutral'') \<and>
         (own_entries (tokenize s) \<noteq> [] \<longrightarrow>
            (\<exists>i. first_max (own_entries (tokenize s)) i \<and>
                 emotion ob = Some (snd (own_entries (tokenize s) ! i)))))) \<and>
   scoreText (JStr ''I feel sad and lonely'') =
     Inr (RetObject \<lparr>score = Some (Num (- 0.7)), emotion = Some ''sadness'', count = Some 2\<rparr>) \<and>
   own_entries (tokenize ''I feel sad and lonely'') = [(- 0.8, ''sadness''), (- 0.6, ''sadness'')]"
proof -
  have a: "scoreText (JStr []) = Inr (RetNumber 0)"
    by (simp add: scoreText_def)
  have t: "tokenize ''I feel sad and lonely'' = [''i'', ''feel'', ''sad'', ''and'', ''lonely'']"
    by code_simp
  have e: "own_entries (tokenize ''I feel sad and lonely'') = [(- 0.8, ''sadness''), (- 0.6, ''sadness'')]"
    unfolding t by (simp add: own_entries_def LEXICON_def)
  have v: "scoreText (JStr ''I feel sad and lonely'') =
     Inr (RetObject \<lparr>score = Some (Num (- 0.7)), emotion = Some ''sadness'', count = Some 2\<rparr>)"
    by code_simp
  show ?thesis
    using a e v dominant_emotion_rule [of s] by simp
qed

theorem scoreText_dominant_emotion_witness:
  "\<exists>ob. scoreText (JStr ''sad and depressed'') = Inr (RetObject ob) \<and>
     own_entries (tokenize ''sad and depressed'') = [(- 0.8, ''sadness''), (- 0.9, ''sadness'')] \<and>
     first_max (own_entries (tokenize ''sad and depressed'')) 1 \<and>
     emotion ob = Some ''sadness''"
proof -
  have t: "tokenize ''sad and depressed'' = [''sad'', ''and'', ''depressed'']"
    by code_simp
  have e: "own_entries (tokenize ''sad and depressed'') = [(- 0.8, ''sadness''), (- 0.9, ''sadness'')]"
    unfolding t by (simp add: own_entries_def LEXICON_def)
  have f: "first_max [(- 0.8 :: real, ''sadness''), (- 0.9, ''sadness'')] i = (i = 1)" for i
    by (auto simp: first_max_def less_Suc_eq nth_Cons split: nat.splits)
  have n: "''sad and depressed'' \<noteq> []"
    by simp
  from scoreText_dominant_emotion [of "''sad and depressed''"] n
  obtain ob where ob: "scoreText (JStr ''sad and depressed'') = Inr (RetObject ob)"
    and "own_entries (tokenize ''sad and depressed'') \<noteq> [] \<longrightarrow>
            (\<exists>i. first_max (own_entries (tokenize ''sad and depressed'')) i \<and>
                 emotion ob = Some (snd (own_entries (tokenize ''sad and depressed'') ! i)))"
    by blast
  then have "emotion ob = Some ''sadness''" and "first_max (own_entries (tokenize ''sad and depressed'')) 1"
    unfolding e f by auto
  with ob e show ?thesis
    by blast
qed

text \<open>
  Claim C6 as stated fails for the empty string: no token matches, and the result is the
  number 0, whose emotion is undefined, not \<^verbatim>\<open>neutral\<close>.
\<close>

theorem scoreText_dominant_emotion_counterexample:
  "scoreText (JStr []) = Inr (RetNumber 0) \<and>
   own_entries (tokenize []) = [] \<and>
   emotion (props (RetNumber 0)) = None \<and>
   emotion (props (RetNumber 0)) \<noteq> Some ''neutral''"
  by (simp add: scoreText_def tokenize_def toLowerCase_def own_entries_def)

section \<open>Properties of the local reply\<close>

lemma length_generics: "length generics = 3"
  by (simp add: generics_def)

lemma random_pick_generics:
  assumes "0 \<le> r" and "r < 1"
  shows "\<exists>k < 3. random_pick generics r = Some (generics ! k) \<and> real k / 3 \<le> r \<and> r < (real k + 1) / 3"
proof -
  define i where "i = \<lfloor>r * 3\<rfloor>"
  have i0: "0 \<le> i"
    using assms by (simp add: i_def)
  have i3: "i < 3"
    using assms by (simp add: i_def floor_less_iff)
  have lo: "of_int i \<le> r * 3" and hi: "r * 3 < of_int i + 1"
    unfolding i_def by linarith+
  have k: "real (nat i) = of_int i"
    using i0 by simp
  have "random_pick generics r = Some (generics ! nat i)"
    using i0 i3 by (simp add: random_pick_def length_generics i_def)
  moreover have "nat i < 3"
    using i0 i3 by simp
  moreover have "real (nat i) / 3 \<le> r" "r < (real (nat i) + 1) / 3"
    using lo hi unfolding k by simp_all
  ultimately show ?thesis
    by blast
qed

lemma detectCrisis_string_bool: "\<exists>b. detectCrisis (JStr t) = Inr b"
  by (simp add: detectCrisis_string)

lemma localReply_crisis:
  "detectCrisis u = Inr True \<Longrightarrow> localReply u ob r st = Inr (None, escalateToCrisis st)"
  by (simp add: localReply_def)

lemma localReply_number:
  "detectCrisis u = Inr False \<Longrightarrow> score ob = Some (Num x) \<Longrightarrow>
   localReply u ob r st =
     Inr (if x \<le> - 0.6 then Some HIGH_CONCERN
          else if x < - 0.2 then Some MODERATE_CONCERN
          else if 0.4 < x then Some POSITIVE
          else random_pick generics r, st)"
  by (simp add: localReply_def)

lemma localReply_no_number:
  "detectCrisis u = Inr False \<Longrightarrow> score ob = Some NaN \<or> score ob = None \<Longrightarrow>
   localReply u ob r st = Inr (random_pick generics r, st)"
  by (auto simp: localReply_def)


text \<open>
  Claim C2. For a text and a score object, with \<^verbatim>\<open>Math.random()\<close> in its range,
  \<^verbatim>\<open>localReply\<close> returns \<^verbatim>\<open>null\<close> exactly when the crisis detector flags the
  text. Otherwise it leaves the state alone and returns a string chosen in this order:
  the high-concern message for a score of at most -0.6, the moderate-concern message for a
  score between -0.6 and -0.2, the positive message for a score above 0.4, one of the
  three neutral prompts for any other score, \<^verbatim>\<open>NaN\<close> and a missing score included.
  Only the neutral prompt depends on the random value \<open>r\<close>: prompt \<open>k\<close> is chosen for
  \<open>r\<close> in the \<open>k\<close>-th third of the unit interval. For the text
  \<^verbatim>\<open>I am so happy and excited today\<close> the score is 0.85 and the reply is the positive
  message.
\<close>

theorem localReply_spec:
  assumes "0 \<le> r" and "r < 1"
  shows "(\<exists>reply st'. localReply (JStr t) ob r st = Inr (reply, st') \<and>
     ((reply = None) = (detectCrisis (JStr t) = Inr True)) \<and>
     (detectCrisis (JStr t) = Inr False \<longrightarrow>
        st' = st \<and>
        (\<forall>x. score ob = Some (Num x) \<longrightarrow>
           (x \<le> - 0.6 \<longrightarrow> reply = Some HIGH_CONCERN) \<and>
           (- 0.6 < x \<and> x < - 0.2 \<longrightarrow> reply = Some MODERATE_CONCERN) \<and>
           (0.4 < x \<longrightarrow> reply = Some POSITIVE) \<and>
           (- 0.2 \<le> x \<and> x \<le> 0.4 \<longrightarrow> reply = random_pick generics r)) \<and>
        (score ob = Some NaN \<or> score ob = None \<longrightarrow> reply = random_pick generics r))) \<and>
     (\<exists>k < 3. random_pick generics r = Some (generics ! k) \<and>
        real k / 3 \<le> r \<and> r < (real k + 1) / 3) \<and>
     scoreText (JStr ''I am so happy and excited today'') =
       Inr (RetObject \<lparr>score = Some (Num 0.85), emotion = Some ''joy'', count = Some 2\<rparr>) \<and>
     localReply (JStr ''I am so happy and excited today'')
       \<lparr>score = Some (Num 0.85), emotion = Some ''joy'', count = Some 2\<rparr> r st = Inr (Some POSITIVE, st)"
proof -
  from random_pick_generics [OF assms] have pick:
    "\<exists>k < 3. random_pick generics r = Some (generics ! k) \<and> real k / 3 \<le> r \<and> r < (real k + 1) / 3" .
  then obtain g where g: "random_pick generics r = Some g"
    by blast
  obtain b where b: "detectCrisis (JStr t) = Inr b"
    using detectCrisis_string_bool by blast
  have main: "\<exists>reply st'. localReply (JStr t) ob r st = Inr (reply, st') \<and>
     ((reply = None) = (detectCrisis (JStr t) = Inr True)) \<and>
     (detectCrisis (JStr t) = Inr False \<longrightarrow>
        st' = st \<and>
        (\<forall>x. score ob = Some (Num x) \<longrightarrow>
           (x \<le> - 0.6 \<longrightarrow> reply = Some HIGH_CONCERN) \<and>
           (- 0.6 < x \<and> x < - 0.2 \<longrightarrow> reply = Some MODERATE_CONCERN) \<and>
           (0.4 < x \<longrightarrow> reply = Some POSITIVE) \<and>
           (- 0.2 \<le> x \<and> x \<le> 0.4 \<longrightarrow> reply = random_pick generics r)) \<and>
        (score ob = Some NaN \<or> score ob = None \<longrightarrow> reply = random_pick generics r))"
  proof (cases b)
    case True
    with b show ?thesis
      by (simp add: localReply_crisis)
  next
    case False
    with b have nc: "detectCrisis (JStr t) = Inr False"
      by simp
    consider x where "score ob = Some (Num x)" | "score ob = Some NaN \<or> score ob = None"
      by (cases "score ob"; cases "the (score ob)") auto
    then show ?thesis
    proof cases
      case 1
      show ?thesis
        unfolding localReply_number [OF nc 1] using nc 1 g by simp
    next
      case 2
      show ?thesis
        unfolding localReply_no_number [OF nc 2] using nc 2 g by auto
    qed
  qed
  have ex1: "scoreText (JStr ''I am so happy and excited today'') =
       Inr (RetObject \<lparr>score = Some (Num 0.85), emotion = Some ''joy'', count = Some 2\<rparr>)"
    by code_simp
  have "(\<exists>p \<in> set crisis_phrases.
           sublist p (toLowerCase ''I am so happy and excited today'')) = False"
    by code_simp
  then have nc: "detectCrisis (JStr ''I am so happy and excited today'') = Inr False"
    by (simp only: detectCrisis_string)
  have ex2: "localReply (JStr ''I am so happy and excited today'')
       \<lparr>score = Some (Num 0.85), emotion = Some ''joy'', count = Some 2\<rparr> r st = Inr (Some POSITIVE, st)"
    using localReply_number [OF nc, of "\<lparr>score = Some (Num 0.85), emotion = Some ''joy'', count = Some 2\<rparr>" "0.85" r st]
    by simp
  show ?thesis
    using main pick ex1 ex2 by (intro conjI)
qed

theorem localReply_spec_witness:
  "(0 :: real) \<le> 0.5 \<and> (0.5 :: real) < 1 \<and>
   detectCrisis (JStr ''it was an okay day'') = Inr False \<and>
   scoreText (JStr ''it was an okay day'') =
     Inr (RetObject \<lparr>score = Some (Num 0), emotion = Some ''neutral'', count = Some 1\<rparr>) \<and>
   localReply (JStr ''it was an okay day'')
     \<lparr>score = Some (Num 0), emotion = Some ''neutral'', count = Some 1\<rparr> 0.5 (startup (\<lambda>n. n)) =
     Inr (Some ''That sounds important. How long have you been feeling that way?'', startup (\<lambda>n. n))"
proof -
  have "(\<exists>p \<in> set crisis_phrases. sublist p (toLowerCase ''it was an okay day'')) = False"
    by code_simp
  then have nc: "detectCrisis (JStr ''it was an okay day'') = Inr False"
    by (simp only: detectCrisis_string)
  have sc: "scoreText (JStr ''it was an okay day'') =
     Inr (RetObject \<lparr>score = Some (Num 0), emotion = Some ''neutral'', count = Some 1\<rparr>)"
    by code_simp
  have r: "(0 :: real) \<le> 0.5" "(0.5 :: real) < 1"
    by simp_all
  have p: "random_pick generics 0.5 = Some ''That sounds important. How long have you been feeling that way?''"
  proof -
    have "\<lfloor>(0.5 :: real) * 3\<rfloor> = 1"
      by (simp add: floor_eq_iff)
    then show ?thesis
      by (simp add: random_pick_def generics_def)
  qed
  from localReply_spec [OF r, of "''it was an okay day''"
      "\<lparr>score = Some (Num 0), emotion = Some ''neutral'', count = Some 1\<rparr>" "startup (\<lambda>n. n)"]
  obtain reply st' where "localReply (JStr ''it was an okay day'')
       \<lparr>score = Some (Num 0), emotion = Some ''neutral'', count = Some 1\<rparr> 0.5 (startup (\<lambda>n. n)) = Inr (reply, st')"
    and "detectCrisis (JStr ''it was an okay day'') = Inr False \<longrightarrow>
        st' = startup (\<lambda>n. n) \<and>
        (\<forall>x. score \<lparr>score = Some (Num 0), emotion = Some ''neutral'', count = Some 1\<rparr> = Some (Num x) \<longrightarrow>
           (- 0.2 \<le> x \<and> x \<le> 0.4 \<longrightarrow> reply = random_pick generics 0.5))"
    by blast
  with nc p have "localReply (JStr ''it was an okay day'')
     \<lparr>score = Some (Num 0), emotion = Some ''neutral'', count = Some 1\<rparr> 0.5 (startup (\<lambda>n. n)) =
     Inr (Some ''That sounds important. How long have you been feeling that way?'', startup (\<lambda>n. n))"
    by simp
  with nc sc r show ?thesis
    by simp
qed


section \<open>Properties of the session state\<close>

lemma pushToTimeline_fields:
  "emotionTimeline (pushToTimeline ob s) =
     window80 (emotionTimeline s @ [\<lparr>ev_t = clock s (reads s), ev_obj = ob\<rparr>])"
  "transcript (pushToTimeline ob s) = transcript s"
  "messages (pushToTimeline ob s) = messages s"
  "crisisOverlay_hidden (pushToTimeline ob s) = crisisOverlay_hidden s"
  "typingIndicator_hidden (pushToTimeline ob s) = typingIndicator_hidden s"
  "clock (pushToTimeline ob s) = clock s"
  "reads (pushToTimeline ob s) = Suc (reads s)"
  by (simp_all add: pushToTimeline_def Date_now_def Let_def window80_def)

lemma pushToTranscript_fields:
  "transcript (pushToTranscript sd txt ob s) =
     transcript s @ [\<lparr>te_sender = sd, te_text = txt, te_ts = clock s (reads s),
                       te_score = score ob, te_emotion = emotion ob, te_lexCount = count ob\<rparr>]"
  "emotionTimeline (pushToTranscript sd txt ob s) = emotionTimeline s"
  "messages (pushToTranscript sd txt ob s) = messages s"
  "crisisOverlay_hidden (pushToTranscript sd txt ob s) = crisisOverlay_hidden s"
  "typingIndicator_hidden (pushToTranscript sd txt ob s) = typingIndicator_hidden s"
  "clock (pushToTranscript sd txt ob s) = clock s"
  "reads (pushToTranscript sd txt ob s) = Suc (reads s)"
  by (simp_all add: pushToTranscript_def Date_now_def Let_def)

lemma addMessageToUI_fields:
  "messages (addMessageToUI txt sd m s) =
     messages s @ [\<lparr>msg_text = txt, msg_sender = sd,
        msg_meta = (case meta_score m of None \<Rightarrow> None
                    | Some sc \<Rightarrow> Some (string_or (meta_emotion m) ''sentiment'', sc, meta_ts m))\<rparr>]"
  "transcript (addMessageToUI txt sd m s) = transcript s"
  "emotionTimeline (addMessageToUI txt sd m s) = emotionTimeline s"
  "crisisOverlay_hidden (addMessageToUI txt sd m s) = crisisOverlay_hidden s"
  "typingIndicator_hidden (addMessageToUI txt sd m s) = typingIndicator_hidden s"
  "clock (addMessageToUI txt sd m s) = clock s"
  "reads (addMessageToUI txt sd m s) = reads s"
  by (simp_all add: addMessageToUI_def)

lemma escalateToCrisis_fields:
  "messages (escalateToCrisis s) = messages s @ [crisis_bubble (clock s (reads s))]"
  "crisisOverlay_hidden (escalateToCrisis s) = False"
  "transcript (escalateToCrisis s) = transcript s"
  "emotionTimeline (escalateToCrisis s) = emotionTimeline s"
  "typingIndicator_hidden (escalateToCrisis s) = typingIndicator_hidden s"
  "clock (escalateToCrisis s) = clock s"
  "reads (escalateToCrisis s) = Suc (reads s)"
  by (simp_all add: escalateToCrisis_def addMessageToUI_def Date_now_def Let_def crisis_bubble_def
      string_or_def)

lemma window80_length: "length xs \<le> 80 \<Longrightarrow> length (window80 (xs @ [x])) \<le> 80"
  by (simp add: window80_def)

lemma window80_full: "length xs = 80 \<Longrightarrow> window80 (xs @ [x]) = tl xs @ [x]"
  by (cases xs) (simp_all add: window80_def)

lemma window80_room: "length xs < 80 \<Longrightarrow> window80 (xs @ [x]) = xs @ [x]"
  by (simp add: window80_def)

lemma fold_pushToTimeline_length:
  "length (emotionTimeline s) \<le> 80 \<Longrightarrow> length (emotionTimeline (fold pushToTimeline obs s)) \<le> 80"
  by (induction obs arbitrary: s) (simp_all add: pushToTimeline_fields window80_length)

lemma startup_timeline: "length (emotionTimeline (startup clk)) = 1"
  by (simp add: startup_def Date_now_def Let_def pushToTimeline_fields pushToTranscript_fields
      addMessageToUI_fields blank_page_def window80_def)

lemma render_user_fields:
  "messages (render_user txt ob s) = messages s @ [user_bubble txt ob (clock s (reads s))]"
  "transcript (render_user txt ob s) = transcript s @ [entry ''user'' txt ob (clock s (reads s + 1))]"
  "emotionTimeline (render_user txt ob s) =
     window80 (emotionTimeline s @ [\<lparr>ev_t = clock s (reads s + 2), ev_obj = ob\<rparr>])"
  "crisisOverlay_hidden (render_user txt ob s) = crisisOverlay_hidden s"
  "typingIndicator_hidden (render_user txt ob s) = False"
  "clock (render_user txt ob s) = clock s"
  "reads (render_user txt ob s) = reads s + 3"
  by (simp_all add: render_user_def Date_now_def Let_def pushToTimeline_fields
      pushToTranscript_fields addMessageToUI_fields user_bubble_def entry_def split: option.split)

lemma scoreText_object:
  "txt \<noteq> [] \<Longrightarrow> \<exists>ob. scoreText (JStr txt) = Inr (RetObject ob)"
  by (simp add: scoreText_string Let_def)

lemma render_reply_string:
  assumes "scoreText (JStr txt) = Inr (RetObject ob)"
  shows "\<exists>s'. render_reply (JStr txt) s = Inr s' \<and>
     messages s' = messages s @ [bot_bubble txt ob (clock s (reads s))] \<and>
     transcript s' = transcript s @ [entry ''bot'' txt ob (clock s (reads s + 1))] \<and>
     emotionTimeline s' =
       window80 (emotionTimeline s @ [\<lparr>ev_t = clock s (reads s + 2), ev_obj = ob\<rparr>]) \<and>
     crisisOverlay_hidden s' = crisisOverlay_hidden s \<and>
     typingIndicator_hidden s' = typingIndicator_hidden s \<and>
     clock s' = clock s \<and> reads s' = reads s + 3"
  by (simp add: render_reply_def assms Date_now_def Let_def pushToTimeline_fields
      pushToTranscript_fields addMessageToUI_fields bot_bubble_def entry_def split: option.split)

lemma render_reply_not_string:
  "truthy v \<Longrightarrow> (\<forall>txt. v \<noteq> JStr txt) \<Longrightarrow> render_reply v s = Inl TypeError"
  by (cases v) (simp_all add: render_reply_def scoreText_def)

lemma crisis_path_fields:
  "messages (crisis_path s) = messages s @ [crisis_bubble (clock s (reads s))]"
  "transcript (crisis_path s) =
     transcript s @ [entry ''bot'' ''Crisis escalation message'' CRISIS_OBJ (clock s (reads s + 1))]"
  "emotionTimeline (crisis_path s) = emotionTimeline s"
  "crisisOverlay_hidden (crisis_path s) = False"
  "typingIndicator_hidden (crisis_path s) = True"
  "clock (crisis_path s) = clock s"
  "reads (crisis_path s) = reads s + 2"
  by (simp_all add: crisis_path_def Let_def escalateToCrisis_fields pushToTranscript_fields
      entry_def CRISIS_OBJ_def)

lemma fixed_replies_nonempty:
  "HIGH_CONCERN \<noteq> []" "MODERATE_CONCERN \<noteq> []" "POSITIVE \<noteq> []" "APOLOGY \<noteq> []"
  "\<forall>g \<in> set generics. g \<noteq> []"
  by (simp_all add: HIGH_CONCERN_def MODERATE_CONCERN_def POSITIVE_def APOLOGY_def generics_def)

lemma localReply_some:
  assumes "0 \<le> r" and "r < 1" and nc: "detectCrisis (JStr txt) = Inr False"
  shows "\<exists>reply. localReply (JStr txt) ob r s = Inr (Some reply, s) \<and> reply \<noteq> []"
proof -
  from random_pick_generics [OF assms(1,2)] obtain k where k: "k < 3"
    "random_pick generics r = Some (generics ! k)"
    by blast
  then have g: "generics ! k \<noteq> []"
    using fixed_replies_nonempty(5) by (simp add: length_generics)
  consider x where "score ob = Some (Num x)" | "score ob = Some NaN \<or> score ob = None"
    by (cases "score ob"; cases "the (score ob)") auto
  then show ?thesis
  proof cases
    case 1
    show ?thesis
      unfolding localReply_number [OF nc 1] using k(2) g fixed_replies_nonempty(1-3) by simp
  next
    case 2
    show ?thesis
      unfolding localReply_no_number [OF nc 2] using k(2) g by simp
  qed
qed

lemma render_reply_replied:
  assumes "scoreText (JStr txt) = Inr (RetObject ob)"
  shows "\<exists>s'. render_reply (JStr txt) s = Inr s' \<and> replied txt ob s s'"
  using render_reply_string [OF assms, of s] by (simp add: replied_def)

lemma local_path_replied:
  assumes "0 \<le> r" and "r < 1" and nc: "detectCrisis (JStr txt) = Inr False"
  shows "\<exists>reply ob s'. localReply (JStr txt) so r s = Inr (Some reply, s) \<and> reply \<noteq> [] \<and>
     scoreText (JStr reply) = Inr (RetObject ob) \<and>
     local_path txt so r s = (None, s') \<and> replied reply ob s s'"
proof -
  from localReply_some [OF assms] obtain reply where
    reply: "localReply (JStr txt) so r s = Inr (Some reply, s)" "reply \<noteq> []"
    by blast
  from scoreText_object [OF reply(2)] obtain ob where
    ob: "scoreText (JStr reply) = Inr (RetObject ob)"
    by blast
  from render_reply_replied [OF ob, of s] obtain s' where
    s': "render_reply (JStr reply) s = Inr s'" "replied reply ob s s'"
    by blast
  have "local_path txt so r s = (None, s')"
    by (simp add: local_path_def reply s')
  with reply ob s' show ?thesis
    by blast
qed

lemma server_reply_nonempty: "server_reply data = Some reply \<Longrightarrow> reply \<noteq> []"
  by (auto simp: server_reply_def fixed_replies_nonempty split: sum.splits if_splits jsval.splits)

lemma server_reply_Some:
  "server_reply data = Some reply \<Longrightarrow>
   \<exists>v. get_prop data ''reply'' = Inr v \<and> (if truthy v then v else JStr APOLOGY) = JStr reply"
  unfolding server_reply_def
  by (cases "get_prop data ''reply''") (auto split: if_splits jsval.splits)

lemma server_reply_None:
  "server_reply data = None \<Longrightarrow>
   (\<exists>e. get_prop data ''reply'' = Inl e) \<or>
   (\<exists>v. get_prop data ''reply'' = Inr v \<and> truthy v \<and> (\<forall>txt. v \<noteq> JStr txt))"
  unfolding server_reply_def
  by (cases "get_prop data ''reply''") (auto split: if_splits jsval.splits)

lemma try_server_success:
  assumes "server_reply data = Some reply" and "scoreText (JStr reply) = Inr (RetObject ob)"
  shows "\<exists>s1. render_reply (JStr reply) s = Inr s1 \<and> replied reply ob s s1 \<and>
     try_server (Response True (Some data)) s =
       Inr (if safety_crisis data then escalateToCrisis s1 else s1)"
proof -
  from render_reply_replied [OF assms(2), of s] obtain s1 where
    s1: "render_reply (JStr reply) s = Inr s1" "replied reply ob s s1"
    by blast
  from server_reply_Some [OF assms(1)] obtain v where
    v: "get_prop data ''reply'' = Inr v" "(if truthy v then v else JStr APOLOGY) = JStr reply"
    by blast
  have "try_server (Response True (Some data)) s =
       Inr (if safety_crisis data then escalateToCrisis s1 else s1)"
    unfolding try_server_def Let_def by (simp add: v s1(1))
  with s1 show ?thesis
    by blast
qed

lemma try_server_failure:
  assumes "resp = FetchRejected \<or> (\<exists>b. resp = Response False b) \<or> resp = Response True None \<or>
   (\<exists>data. resp = Response True (Some data) \<and> server_reply data = None)"
  shows "\<exists>e. try_server resp s = Inl e"
  using assms
proof (elim disjE exE conjE)
  assume "resp = FetchRejected"
  then show ?thesis by (simp add: try_server_def)
next
  fix b assume "resp = Response False b"
  then show ?thesis by (simp add: try_server_def)
next
  assume "resp = Response True None"
  then show ?thesis by (simp add: try_server_def)
next
  fix data assume r: "resp = Response True (Some data)" and n: "server_reply data = None"
  from server_reply_None [OF n] show ?thesis
  proof (elim disjE exE conjE)
    fix e assume "get_prop data ''reply'' = Inl e"
    then show ?thesis by (simp add: try_server_def r)
  next
    fix v assume v: "get_prop data ''reply'' = Inr v" "truthy v" "\<forall>txt. v \<noteq> JStr txt"
    then have "render_reply v s = Inl TypeError"
      by (simp add: render_reply_not_string)
    with v show ?thesis by (simp add: try_server_def r)
  qed
qed

lemma fetch_result_cases:
  "resp = FetchRejected \<or> (\<exists>b. resp = Response False b) \<or> resp = Response True None \<or>
   (\<exists>data. resp = Response True (Some data) \<and> server_reply data = None) \<or>
   (\<exists>data reply. resp = Response True (Some data) \<and> server_reply data = Some reply)"
proof (cases resp)
  case FetchRejected
  then show ?thesis by simp
next
  case (Response ok body)
  show ?thesis
  proof (cases ok)
    case False
    with Response show ?thesis by simp
  next
    case True
    show ?thesis
    proof (cases body)
      case None
      with Response True show ?thesis by simp
    next
      case (Some data)
      with Response True show ?thesis by (cases "server_reply data") simp_all
    qed
  qed
qed

lemma submit_crisis:
  assumes "trim input \<noteq> []" and "scoreText (JStr (trim input)) = Inr (RetObject ob)"
    and "detectCrisis (JStr (trim input)) = Inr True"
  shows "submit input useServer resp r s = crisis_path (render_user (trim input) ob s)"
  using assms by (simp add: submit_def Let_def)

lemma submit_not_crisis:
  assumes "trim input \<noteq> []" and "scoreText (JStr (trim input)) = Inr (RetObject ob)"
    and "detectCrisis (JStr (trim input)) = Inr False"
  shows "submit input useServer resp r s =
     (if useServer then server_path (trim input) ob resp r (render_user (trim input) ob s)
      else (case local_path (trim input) ob r (render_user (trim input) ob s) of
              (Some e, s2) \<Rightarrow> s2
            | (None, s2) \<Rightarrow> s2\<lparr>typingIndicator_hidden := True\<rparr>))"
  using assms by (simp add: submit_def Let_def)

lemma server_path_failure:
  assumes "try_server resp s = Inl e"
  shows "server_path txt ob resp r s = (snd (local_path txt ob r s))\<lparr>typingIndicator_hidden := True\<rparr>"
  using assms by (simp add: server_path_def)

lemma server_path_success:
  assumes "try_server resp s = Inr s1"
  shows "server_path txt ob resp r s = s1\<lparr>typingIndicator_hidden := True\<rparr>"
  using assms by (simp add: server_path_def)

text \<open>Every turn that is not a crisis turn renders exactly one reply after the user's
  message; what follows it changes neither the transcript nor the timeline.\<close>

lemma turn_replied:
  assumes r: "0 \<le> r" "r < 1" and nc: "detectCrisis (JStr txt) = Inr False"
    and after: "after = (if useServer then server_path txt so resp r s
      else (case local_path txt so r s of
              (Some e, s2) \<Rightarrow> s2
            | (None, s2) \<Rightarrow> s2\<lparr>typingIndicator_hidden := True\<rparr>))"
  shows "\<exists>reply ob s1. reply \<noteq> [] \<and> scoreText (JStr reply) = Inr (RetObject ob) \<and>
     replied reply ob s s1 \<and> transcript after = transcript s1 \<and>
     emotionTimeline after = emotionTimeline s1"
proof -
  from local_path_replied [OF r nc, of so s] obtain reply ob s' where
    loc: "reply \<noteq> []" "scoreText (JStr reply) = Inr (RetObject ob)"
      "local_path txt so r s = (None, s')" "replied reply ob s s'"
    by blast
  show ?thesis
  proof (cases useServer)
    case False
    then have "after = s'\<lparr>typingIndicator_hidden := True\<rparr>"
      by (simp add: after loc(3))
    with loc show ?thesis
      by (intro exI [of _ reply] exI [of _ ob] exI [of _ s']) simp
  next
    case True
    then have after': "after = server_path txt so resp r s"
      by (simp add: after)
    from fetch_result_cases [of resp] consider
      (fail) "resp = FetchRejected \<or> (\<exists>b. resp = Response False b) \<or> resp = Response True None \<or>
        (\<exists>data. resp = Response True (Some data) \<and> server_reply data = None)"
      | (ok) data rep where "resp = Response True (Some data)" "server_reply data = Some rep"
      by blast
    then show ?thesis
    proof cases
      case fail
      from try_server_failure [OF fail, of s] obtain e where "try_server resp s = Inl e"
        by blast
      then have "after = s'\<lparr>typingIndicator_hidden := True\<rparr>"
        by (simp add: after' server_path_failure loc(3))
      with loc show ?thesis
        by (intro exI [of _ reply] exI [of _ ob] exI [of _ s']) simp
    next
      case ok
      from server_reply_nonempty [OF ok(2)] have ne: "rep \<noteq> []" .
      from scoreText_object [OF ne] obtain ob' where
        ob': "scoreText (JStr rep) = Inr (RetObject ob')"
        by blast
      from try_server_success [OF ok(2) ob', of s] obtain s1 where
        s1: "replied rep ob' s s1"
          "try_server (Response True (Some data)) s =
             Inr (if safety_crisis data then escalateToCrisis s1 else s1)"
        by blast
      have "after = (if safety_crisis data then escalateToCrisis s1 else s1)\<lparr>typingIndicator_hidden := True\<rparr>"
        using s1(2) by (simp add: after' ok(1) server_path_success)
      then have "transcript after = transcript s1" "emotionTimeline after = emotionTimeline s1"
        by (simp_all add: escalateToCrisis_fields)
      with ne ob' s1(1) show ?thesis
        by blast
    qed
  qed
qed

lemma replied_after_user:
  assumes "replied reply ob_b (render_user txt ob_u s) s1"
  shows "transcript s1 =
       transcript s @ [entry ''user'' txt ob_u (clock s (reads s + 1)),
                       entry ''bot'' reply ob_b (clock s (reads s + 4))]"
    and "emotionTimeline s1 =
       window80 (window80 (emotionTimeline s @ [\<lparr>ev_t = clock s (reads s + 2), ev_obj = ob_u\<rparr>]) @
                 [\<lparr>ev_t = clock s (reads s + 5), ev_obj = ob_b\<rparr>])"
    and "messages s1 =
       messages s @ [user_bubble txt ob_u (clock s (reads s)),
                     bot_bubble reply ob_b (clock s (reads s + 3))]"
    and "crisisOverlay_hidden s1 = crisisOverlay_hidden s"
    and "clock s1 = clock s" and "reads s1 = reads s + 6"
  using assms by (simp_all add: replied_def render_user_fields add.commute)

lemma trim_sad: "trim ''I feel sad'' = ''I feel sad''"
  by code_simp

lemma not_crisis_sad: "detectCrisis (JStr ''I feel sad'') = Inr False"
proof -
  have "(\<exists>p \<in> set crisis_phrases. sublist p (toLowerCase ''I feel sad'')) = False"
    by code_simp
  then show ?thesis
    by (simp only: detectCrisis_string)
qed

lemma startup_fields:
  "length (transcript (startup clk)) = 1"
  "length (messages (startup clk)) = 1"
  "crisisOverlay_hidden (startup clk) = True"
  "reads (startup clk) = 3"
  "clock (startup clk) = clk"
  by (simp_all add: startup_def Date_now_def Let_def pushToTimeline_fields pushToTranscript_fields
      addMessageToUI_fields blank_page_def)

lemma local_path_no_error:
  assumes "detectCrisis (JStr txt) = Inr False"
  shows "\<exists>s'. local_path txt so r s = (None, s') \<and>
     crisisOverlay_hidden s' = crisisOverlay_hidden s"
proof -
  have "\<exists>reply. localReply (JStr txt) so r s = Inr (reply, s)"
    using assms by (simp add: localReply_def Let_def)
  then obtain reply where l: "localReply (JStr txt) so r s = Inr (reply, s)"
    by blast
  show ?thesis
  proof (cases reply)
    case None
    with l show ?thesis
      by (simp add: local_path_def)
  next
    case (Some rep)
    show ?thesis
    proof (cases "rep = []")
      case True
      with l Some show ?thesis
        by (simp add: local_path_def)
    next
      case False
      from scoreText_object [OF False] obtain ob where "scoreText (JStr rep) = Inr (RetObject ob)"
        by blast
      from render_reply_replied [OF this, of s] obtain s' where
        "render_reply (JStr rep) s = Inr s'" "replied rep ob s s'"
        by blast
      with l Some False show ?thesis
        by (simp add: local_path_def replied_def)
    qed
  qed
qed

lemma scoreText_APOLOGY:
  "scoreText (JStr APOLOGY) =
     Inr (RetObject \<lparr>score = Some (Num 0), emotion = Some ''neutral'', count = Some 0\<rparr>)"
  by code_simp

lemma apology_turn:
  assumes "trim input \<noteq> []" and "detectCrisis (JStr (trim input)) = Inr False"
    and ob_u: "scoreText (JStr (trim input)) = Inr (RetObject ob_u)"
    and v: "get_prop data ''reply'' = Inr v" "\<not> truthy v"
  shows "transcript (submit input True (Response True (Some data)) r s) =
           transcript s @ [entry ''user'' (trim input) ob_u (clock s (reads s + 1)),
                           entry ''bot'' APOLOGY NEUTRAL_OBJ (clock s (reads s + 4))]"
    and "messages (submit input True (Response True (Some data)) r s) =
           messages s @ ([user_bubble (trim input) ob_u (clock s (reads s)),
                         bot_bubble APOLOGY NEUTRAL_OBJ (clock s (reads s + 3))] @
                        (if safety_crisis data then [crisis_bubble (clock s (reads s + 6))] else []))"
proof -
  note sub = submit_not_crisis [OF assms(1) ob_u assms(2)]
  define s0 where "s0 = render_user (trim input) ob_u s"
  have a: "scoreText (JStr APOLOGY) = Inr (RetObject NEUTRAL_OBJ)"
    by (simp add: scoreText_APOLOGY NEUTRAL_OBJ_def)
  from v have sr: "server_reply data = Some APOLOGY"
    by (simp add: server_reply_def)
  from try_server_success [OF sr a, of s0] obtain s1 where
    s1: "replied APOLOGY NEUTRAL_OBJ s0 s1"
      "try_server (Response True (Some data)) s0 =
         Inr (if safety_crisis data then escalateToCrisis s1 else s1)"
    by blast
  have eq: "submit input True (Response True (Some data)) r s =
      (if safety_crisis data then escalateToCrisis s1 else s1)\<lparr>typingIndicator_hidden := True\<rparr>"
    using s1(2) by (simp add: sub server_path_success s0_def)
  show "transcript (submit input True (Response True (Some data)) r s) =
           transcript s @ [entry ''user'' (trim input) ob_u (clock s (reads s + 1)),
                           entry ''bot'' APOLOGY NEUTRAL_OBJ (clock s (reads s + 4))]"
    unfolding eq using replied_after_user [OF s1(1) [unfolded s0_def]]
    by (simp add: escalateToCrisis_fields)
  show "messages (submit input True (Response True (Some data)) r s) =
           messages s @ ([user_bubble (trim input) ob_u (clock s (reads s)),
                         bot_bubble APOLOGY NEUTRAL_OBJ (clock s (reads s + 3))] @
                        (if safety_crisis data then [crisis_bubble (clock s (reads s + 6))] else []))"
    unfolding eq using replied_after_user [OF s1(1) [unfolded s0_def]]
    by (simp add: escalateToCrisis_fields)
qed

lemma failure_turn:
  assumes "trim input \<noteq> []" and "detectCrisis (JStr (trim input)) = Inr False"
    and f: "resp = FetchRejected \<or> (\<exists>b. resp = Response False b) \<or> resp = Response True None \<or>
      (\<exists>d. resp = Response True (Some d) \<and> server_reply d = None)"
  shows "submit input True resp r s = submit input False resp r s"
proof -
  from scoreText_object [OF assms(1)] obtain ob_u where
    ob_u: "scoreText (JStr (trim input)) = Inr (RetObject ob_u)"
    by blast
  note sub = submit_not_crisis [OF assms(1) ob_u assms(2)]
  define s0 where "s0 = render_user (trim input) ob_u s"
  from try_server_failure [OF f, of s0] obtain e where e: "try_server resp s0 = Inl e"
    by blast
  obtain s2 where l: "local_path (trim input) ob_u r s0 = (None, s2)"
    using local_path_no_error [OF assms(2), of ob_u r s0] by blast
  show ?thesis
    by (simp add: sub server_path_failure [OF e] l s0_def [symmetric])
qed

text \<open>The turn that falls back: its reply is the one \<^verbatim>\<open>localReply\<close> returns.\<close>

lemma local_turn:
  assumes "trim input \<noteq> []" and nc: "detectCrisis (JStr (trim input)) = Inr False"
    and ob_u: "scoreText (JStr (trim input)) = Inr (RetObject ob_u)"
    and l: "localReply (JStr (trim input)) ob_u r (render_user (trim input) ob_u s) =
              Inr (Some reply, render_user (trim input) ob_u s)"
    and ne: "reply \<noteq> []"
    and ob_b: "scoreText (JStr reply) = Inr (RetObject ob_b)"
  shows "transcript (submit input False resp r s) =
           transcript s @ [entry ''user'' (trim input) ob_u (clock s (reads s + 1)),
                           entry ''bot'' reply ob_b (clock s (reads s + 4))]"
proof -
  note sub = submit_not_crisis [OF assms(1) ob_u nc]
  define s0 where "s0 = render_user (trim input) ob_u s"
  from render_reply_replied [OF ob_b, of s0] obtain s1 where
    s1: "render_reply (JStr reply) s0 = Inr s1" "replied reply ob_b s0 s1"
    by blast
  have "local_path (trim input) ob_u r s0 = (None, s1)"
    using l ne s1(1) by (simp add: local_path_def s0_def)
  then have "submit input False resp r s = s1\<lparr>typingIndicator_hidden := True\<rparr>"
    by (simp add: sub s0_def)
  then show ?thesis
    using replied_after_user(1) [OF s1(2) [unfolded s0_def]] by simp
qed

lemma scoreText_sad:
  "scoreText (JStr ''I feel sad'') =
     Inr (RetObject \<lparr>score = Some (Num (- 0.8)), emotion = Some ''sadness'', count = Some 1\<rparr>)"
  by code_simp

lemma scoreText_HIGH_CONCERN: "\<exists>ob. scoreText (JStr HIGH_CONCERN) = Inr (RetObject ob)"
  by (rule scoreText_object) (rule fixed_replies_nonempty)

lemma crisis_turn:
  assumes "trim input \<noteq> []" and ob_u: "scoreText (JStr (trim input)) = Inr (RetObject ob_u)"
    and "detectCrisis (JStr (trim input)) = Inr True"
  shows "crisisOverlay_hidden (submit input useServer resp r s) = False"
    and "messages (submit input useServer resp r s) =
       messages s @ [user_bubble (trim input) ob_u (clock s (reads s)),
                     crisis_bubble (clock s (reads s + 3))]"
    and "transcript (submit input useServer resp r s) =
       transcript s @ [entry ''user'' (trim input) ob_u (clock s (reads s + 1)),
                       entry ''bot'' ''Crisis escalation message'' CRISIS_OBJ (clock s (reads s + 4))]"
    and "emotionTimeline (submit input useServer resp r s) =
       window80 (emotionTimeline s @ [\<lparr>ev_t = clock s (reads s + 2), ev_obj = ob_u\<rparr>])"
  unfolding submit_crisis [OF assms]
  by (simp_all add: crisis_path_fields render_user_fields add.commute)

lemma remote_crisis_turn:
  assumes "trim input \<noteq> []" and nc: "detectCrisis (JStr (trim input)) = Inr False"
    and ob_u: "scoreText (JStr (trim input)) = Inr (RetObject ob_u)"
    and sr: "server_reply data = Some reply"
    and ob_b: "scoreText (JStr reply) = Inr (RetObject ob_b)"
    and flag: "safety_crisis data"
  shows "crisisOverlay_hidden (submit input True (Response True (Some data)) r s) = False"
    and "messages (submit input True (Response True (Some data)) r s) =
       messages s @ [user_bubble (trim input) ob_u (clock s (reads s)),
                     bot_bubble reply ob_b (clock s (reads s + 3)),
                     crisis_bubble (clock s (reads s + 6))]"
    and "transcript (submit input True (Response True (Some data)) r s) =
       transcript s @ [entry ''user'' (trim input) ob_u (clock s (reads s + 1)),
                       entry ''bot'' reply ob_b (clock s (reads s + 4))]"
    and "emotionTimeline (submit input True (Response True (Some data)) r s) =
       window80 (window80 (emotionTimeline s @ [\<lparr>ev_t = clock s (reads s + 2), ev_obj = ob_u\<rparr>]) @
                 [\<lparr>ev_t = clock s (reads s + 5), ev_obj = ob_b\<rparr>])"
proof -
  note sub = submit_not_crisis [OF assms(1) ob_u nc]
  define s0 where "s0 = render_user (trim input) ob_u s"
  from try_server_success [OF sr ob_b, of s0] flag obtain s1 where
    s1: "replied reply ob_b s0 s1"
      "try_server (Response True (Some data)) s0 = Inr (escalateToCrisis s1)"
    by auto
  have eq: "submit input True (Response True (Some data)) r s =
      (escalateToCrisis s1)\<lparr>typingIndicator_hidden := True\<rparr>"
    using s1(2) by (simp add: sub server_path_success s0_def)
  note f = replied_after_user [OF s1(1) [unfolded s0_def]]
  show "crisisOverlay_hidden (submit input True (Response True (Some data)) r s) = False"
    unfolding eq by (simp add: escalateToCrisis_fields)
  show "messages (submit input True (Response True (Some data)) r s) =
       messages s @ [user_bubble (trim input) ob_u (clock s (reads s)),
                     bot_bubble reply ob_b (clock s (reads s + 3)),
                     crisis_bubble (clock s (reads s + 6))]"
    unfolding eq using f by (simp add: escalateToCrisis_fields)
  show "transcript (submit input True (Response True (Some data)) r s) =
       transcript s @ [entry ''user'' (trim input) ob_u (clock s (reads s + 1)),
                       entry ''bot'' reply ob_b (clock s (reads s + 4))]"
    unfolding eq using f by (simp add: escalateToCrisis_fields)
  show "emotionTimeline (submit input True (Response True (Some data)) r s) =
       window80 (window80 (emotionTimeline s @ [\<lparr>ev_t = clock s (reads s + 2), ev_obj = ob_u\<rparr>]) @
                 [\<lparr>ev_t = clock s (reads s + 5), ev_obj = ob_b\<rparr>])"
    unfolding eq using f by (simp add: escalateToCrisis_fields)
qed

lemma trim_die: "trim ''I want to die'' = ''I want to die''"
  by code_simp

lemma crisis_die: "detectCrisis (JStr ''I want to die'') = Inr True"
proof -
  have "(\<exists>p \<in> set crisis_phrases. sublist p (toLowerCase ''I want to die'')) = True"
    by code_simp
  then show ?thesis
    by (simp only: detectCrisis_string)
qed

lemma scoreText_die:
  "scoreText (JStr ''I want to die'') = Inr (RetObject NEUTRAL_OBJ)"
  unfolding NEUTRAL_OBJ_def by code_simp

lemma scoreText_help:
  "scoreText (JStr ''Please call for help'') = Inr (RetObject NEUTRAL_OBJ)"
  unfolding NEUTRAL_OBJ_def by code_simp

lemma flagged_body_reads:
  "server_reply flagged_body = Some ''Please call for help''" "safety_crisis flagged_body"
  by (simp_all add: flagged_body_def server_reply_def safety_crisis_def)

lemma escalate_twice:
  "crisisOverlay_hidden (escalateToCrisis (escalateToCrisis s)) = False"
  "messages (escalateToCrisis (escalateToCrisis s)) =
     messages s @ [crisis_bubble (clock s (reads s)), crisis_bubble (clock s (reads s + 1))]"
  by (simp_all add: escalateToCrisis_fields)

lemma detectWith_mono:
  "set ps \<subseteq> set qs \<Longrightarrow> detectWith ps v = Inr True \<Longrightarrow> detectWith qs v = Inr True"
  by (cases v) (auto simp: detectWith_def list_ex_iff split: if_splits)

lemma server_patterns_subset: "set SERVER_CRISIS_PATTERNS \<subseteq> set CRISIS_PATTERNS"
  by (simp add: SERVER_CRISIS_PATTERNS_def CRISIS_PATTERNS_def)

lemma server_implies_client:
  "detectCrisisServer v = Inr True \<Longrightarrow> detectCrisis v = Inr True"
  unfolding detectCrisisServer_def detectCrisis_def
  by (rule detectWith_mono [OF server_patterns_subset])

lemma detectCrisisServer_string: "\<exists>b. detectCrisisServer (JStr txt) = Inr b"
  by (cases "txt = []") (auto simp: detectCrisisServer_def detectWith_def Let_def)

lemma api_chat_not_crisis:
  assumes "txt \<noteq> []" and nc: "detectCrisis (JStr txt) = Inr False"
  shows "\<exists>reply. api_chat model r1 (JObj [(''message'', JStr txt)]) = (200, reply_json reply False False)"
proof -
  obtain b where b: "detectCrisisServer (JStr txt) = Inr b"
    using detectCrisisServer_string by blast
  have "\<not> b"
    using server_implies_client [of "JStr txt"] b nc by auto
  with b have s: "detectCrisisServer (JStr txt) = Inr False"
    by simp
  show ?thesis
    by (cases "if model = NoClient then Inl EmptyReply else llm_reply model")
      (auto simp: api_chat_def assms(1) s)
qed

lemma safety_crisis_reply_json: "safety_crisis (reply_json reply c m) = c"
  by (cases reply) (simp_all add: safety_crisis_def reply_json_def)

lemma unflagged_turn_overlay:
  assumes "trim input \<noteq> []" and nc: "detectCrisis (JStr (trim input)) = Inr False"
    and nf: "\<not> safety_crisis body"
  shows "crisisOverlay_hidden (submit input True (Response ok (Some body)) r s) = crisisOverlay_hidden s"
proof -
  from scoreText_object [OF assms(1)] obtain ob_u where
    ob_u: "scoreText (JStr (trim input)) = Inr (RetObject ob_u)"
    by blast
  note sub = submit_not_crisis [OF assms(1) ob_u nc]
  define s0 where "s0 = render_user (trim input) ob_u s"
  have s0: "crisisOverlay_hidden s0 = crisisOverlay_hidden s"
    by (simp add: s0_def render_user_fields)
  have eq: "submit input True (Response ok (Some body)) r s =
      server_path (trim input) ob_u (Response ok (Some body)) r s0"
    by (simp add: sub s0_def)
  show ?thesis
  proof (cases "try_server (Response ok (Some body)) s0")
    case (Inl e)
    obtain s2 where "local_path (trim input) ob_u r s0 = (None, s2)"
      "crisisOverlay_hidden s2 = crisisOverlay_hidden s0"
      using local_path_no_error [OF nc, of ob_u r s0] by blast
    then show ?thesis
      unfolding eq by (simp add: server_path_failure [OF Inl] s0)
  next
    case (Inr s1)
    have ok: "ok"
      using Inr by (auto simp: try_server_def split: if_splits)
    from fetch_result_cases [of "Response ok (Some body)"] ok try_server_failure [of "Response ok (Some body)" s0] Inr
    obtain reply where sr: "server_reply body = Some reply"
      by auto
    from server_reply_nonempty [OF sr] have "reply \<noteq> []" .
    from scoreText_object [OF this] obtain ob_b where
      ob_b: "scoreText (JStr reply) = Inr (RetObject ob_b)"
      by blast
    from try_server_success [OF sr ob_b, of s0] nf ok Inr have "replied reply ob_b s0 s1"
      by auto
    then have "crisisOverlay_hidden s1 = crisisOverlay_hidden s0"
      by (simp add: replied_def)
    then show ?thesis
      unfolding eq by (simp add: server_path_success [OF Inr] s0)
  qed
qed

text \<open>The bound of 80 on the timeline is kept by every step of a turn.\<close>

lemma render_user_bound:
  "length (emotionTimeline s) \<le> 80 \<Longrightarrow> length (emotionTimeline (render_user txt ob s)) \<le> 80"
  by (simp add: render_user_fields window80_length)

lemma render_reply_bound:
  assumes "length (emotionTimeline s) \<le> 80" and "render_reply v s = Inr s'"
  shows "length (emotionTimeline s') \<le> 80"
proof (cases v)
  case (JStr str)
  with assms(2) obtain r where r: "scoreText (JStr str) = Inr r"
    by (auto simp: render_reply_def split: sum.splits)
  with assms(2) JStr have "emotionTimeline s' =
      window80 (emotionTimeline s @ [\<lparr>ev_t = clock s (reads s + 2), ev_obj = props r\<rparr>])"
    by (auto simp: render_reply_def Date_now_def Let_def pushToTimeline_fields
        pushToTranscript_fields addMessageToUI_fields)
  with assms(1) show ?thesis
    by (simp add: window80_length)
qed (use assms(2) in \<open>auto simp: render_reply_def split: sum.splits\<close>)

lemma localReply_bound:
  assumes "length (emotionTimeline s) \<le> 80" and "localReply u so r s = Inr (reply, s')"
  shows "length (emotionTimeline s') \<le> 80"
  using assms
  by (auto simp: localReply_def Let_def escalateToCrisis_fields split: sum.splits bool.splits if_splits)

lemma local_path_bound:
  assumes "length (emotionTimeline s) \<le> 80"
  shows "length (emotionTimeline (snd (local_path txt so r s))) \<le> 80"
proof (cases "localReply (JStr txt) so r s")
  case (Inl e)
  with assms show ?thesis
    by (simp add: local_path_def)
next
  case (Inr p)
  obtain reply s1 where p: "p = (reply, s1)"
    by (cases p)
  from localReply_bound [OF assms Inr [unfolded p]] have s1: "length (emotionTimeline s1) \<le> 80" .
  show ?thesis
  proof (cases reply)
    case None
    with Inr p s1 show ?thesis
      by (simp add: local_path_def)
  next
    case (Some rep)
    show ?thesis
    proof (cases "render_reply (JStr rep) s1")
      case (Inl e)
      with Inr p s1 Some show ?thesis
        by (simp add: local_path_def)
    next
      case r: (Inr s2)
      from render_reply_bound [OF s1 r] Inr p s1 Some r show ?thesis
        by (simp add: local_path_def)
    qed
  qed
qed

lemma try_server_bound:
  assumes "length (emotionTimeline s) \<le> 80" and "try_server resp s = Inr s'"
  shows "length (emotionTimeline s') \<le> 80"
proof -
  from assms(2) obtain v s1 where "render_reply v s = Inr s1"
    and "emotionTimeline s' = emotionTimeline s1"
    by (auto simp: try_server_def Let_def escalateToCrisis_fields
        split: fetch_result.splits if_splits option.splits sum.splits)
  with render_reply_bound [OF assms(1)] show ?thesis
    by simp
qed

lemma server_path_bound:
  assumes "length (emotionTimeline s) \<le> 80"
  shows "length (emotionTimeline (server_path txt so resp r s)) \<le> 80"
  using try_server_bound [OF assms, of resp] local_path_bound [OF assms, of "txt" so r]
  by (cases "try_server resp s") (simp_all add: server_path_def)

lemma submit_bound:
  assumes "length (emotionTimeline s) \<le> 80"
  shows "length (emotionTimeline (submit input useServer resp r s)) \<le> 80"
proof (cases "trim input = []")
  case True
  with assms show ?thesis
    by (simp add: submit_def)
next
  case False
  from scoreText_object [OF False] obtain ob where
    ob: "scoreText (JStr (trim input)) = Inr (RetObject ob)"
    by blast
  define s0 where "s0 = render_user (trim input) ob s"
  have s0: "length (emotionTimeline s0) \<le> 80"
    unfolding s0_def using assms by (rule render_user_bound)
  obtain b where b: "detectCrisis (JStr (trim input)) = Inr b"
    using detectCrisis_string_bool by blast
  show ?thesis
  proof (cases b)
    case True
    with b have "submit input useServer resp r s = crisis_path s0"
      by (simp add: submit_crisis [OF False ob] s0_def)
    with s0 show ?thesis
      by (simp add: crisis_path_fields)
  next
    case nb: False
    with b have nc: "detectCrisis (JStr (trim input)) = Inr False"
      by simp
    show ?thesis
    proof (cases useServer)
      case True
      then show ?thesis
        using server_path_bound [OF s0, of "trim input" ob resp r]
        by (simp add: submit_not_crisis [OF False ob nc] s0_def)
    next
      case False
      then show ?thesis
        using local_path_bound [OF s0, of "trim input" ob r]
        by (cases "local_path (trim input) ob r s0"; cases "fst (local_path (trim input) ob r s0)")
          (simp_all add: submit_not_crisis [OF \<open>trim input \<noteq> []\<close> ob nc] s0_def [symmetric])
    qed
  qed
qed

lemma run_turns_bound:
  "length (emotionTimeline s) \<le> 80 \<Longrightarrow> length (emotionTimeline (run_turns tns s)) \<le> 80"
  unfolding run_turns_def
proof (induction tns arbitrary: s)
  case Nil
  then show ?case by simp
next
  case (Cons tn tns)
  obtain i u rs r where tn: "tn = (i, u, rs, r)"
    by (cases tn)
  from Cons.prems have "length (emotionTimeline (run_turn tn s)) \<le> 80"
    unfolding tn run_turn_def by (simp add: submit_bound)
  from Cons.IH [OF this] show ?case
    by simp
qed

text \<open>A turn on the local path that is not a crisis turn leaves the overlay as it was.\<close>

lemma local_turn_overlay:
  assumes "trim input \<noteq> []" and nc: "detectCrisis (JStr (trim input)) = Inr False"
  shows "crisisOverlay_hidden (submit input False resp r s) = crisisOverlay_hidden s"
proof -
  from scoreText_object [OF assms(1)] obtain ob_u where
    ob_u: "scoreText (JStr (trim input)) = Inr (RetObject ob_u)"
    by blast
  define s0 where "s0 = render_user (trim input) ob_u s"
  obtain s2 where l: "local_path (trim input) ob_u r s0 = (None, s2)"
    "crisisOverlay_hidden s2 = crisisOverlay_hidden s0"
    using local_path_no_error [OF nc, of ob_u r s0] by blast
  have "crisisOverlay_hidden s0 = crisisOverlay_hidden s"
    by (simp add: s0_def render_user_fields)
  moreover have "submit input False resp r s = s2\<lparr>typingIndicator_hidden := True\<rparr>"
    by (simp add: submit_not_crisis [OF assms(1) ob_u nc] s0_def [symmetric] l(1))
  ultimately show ?thesis
    using l(2) by simp
qed

lemma unusable_body_reads:
  "server_reply unusable_body = None" "safety_crisis unusable_body"
  by (simp_all add: unusable_body_def server_reply_def safety_crisis_def)

section \<open>Properties of the turn\<close>

text \<open>
  Claim C7. The timeline holds at most 80 events: a push onto a timeline of at most 80
  events leaves at most 80, and so does every run of pushes and every run of turns after
  the start of the script.
  A push onto a timeline of exactly 80 events removes the oldest one, keeps the others in
  their order and puts the new event last; below 80 nothing is removed.
\<close>

theorem pushToTimeline_bounded:
  "(length (emotionTimeline s) \<le> 80 \<longrightarrow> length (emotionTimeline (pushToTimeline ob s)) \<le> 80) \<and>
   (length (emotionTimeline s) = 80 \<longrightarrow>
      emotionTimeline (pushToTimeline ob s) =
        tl (emotionTimeline s) @ [\<lparr>ev_t = clock s (reads s), ev_obj = ob\<rparr>]) \<and>
   (length (emotionTimeline s) < 80 \<longrightarrow>
      emotionTimeline (pushToTimeline ob s) =
        emotionTimeline s @ [\<lparr>ev_t = clock s (reads s), ev_obj = ob\<rparr>]) \<and>
   length (emotionTimeline (fold pushToTimeline obs (startup clk))) \<le> 80 \<and>
   length (emotionTimeline (run_turns tns (startup clk))) \<le> 80"
  using fold_pushToTimeline_length [of "startup clk" obs] run_turns_bound [of "startup clk" tns]
  by (simp add: pushToTimeline_fields window80_length window80_full window80_room startup_timeline)

theorem pushToTimeline_bounded_witness:
  "length (emotionTimeline ((blank_page (\<lambda>n. n))\<lparr>emotionTimeline := replicate 80 event0\<rparr>)) = 80 \<and>
   emotionTimeline (pushToTimeline \<lparr>score = Some (Num 1), emotion = Some ''joy'', count = Some 1\<rparr>
       ((blank_page (\<lambda>n. n))\<lparr>emotionTimeline := replicate 80 event0\<rparr>)) =
     replicate 79 event0 @
       [\<lparr>ev_t = 0, ev_obj = \<lparr>score = Some (Num 1), emotion = Some ''joy'', count = Some 1\<rparr>\<rparr>]"
  using pushToTimeline_bounded
    [of "(blank_page (\<lambda>n. n))\<lparr>emotionTimeline := replicate 80 event0\<rparr>"
        "\<lparr>score = Some (Num 1), emotion = Some ''joy'', count = Some 1\<rparr>" "[]" "\<lambda>n. n" "[]"]
  by (simp add: blank_page_def)

text \<open>
  Claim C10. On every turn that is not a crisis turn, whichever of the three paths it takes
  (the server's answer, the fallback after a failed call, the local path), there is a reply
  \<open>reply\<close>: it is scored by \<^verbatim>\<open>scoreText\<close>, the transcript gains exactly the user's
  entry and one bot entry with the reply and its score, and the timeline receives exactly
  two events, the user's score and then the reply's score, each pushed under the bound of 80.
\<close>

theorem every_reply_scored:
  assumes "0 \<le> r" and "r < 1" and "trim input \<noteq> []"
    and "detectCrisis (JStr (trim input)) = Inr False"
  shows "\<exists>ob_u reply ob_b.
     scoreText (JStr (trim input)) = Inr (RetObject ob_u) \<and>
     reply \<noteq> [] \<and> scoreText (JStr reply) = Inr (RetObject ob_b) \<and>
     transcript (submit input useServer resp r s) =
       transcript s @ [entry ''user'' (trim input) ob_u (clock s (reads s + 1)),
                       entry ''bot'' reply ob_b (clock s (reads s + 4))] \<and>
     emotionTimeline (submit input useServer resp r s) =
       window80 (window80 (emotionTimeline s @ [\<lparr>ev_t = clock s (reads s + 2), ev_obj = ob_u\<rparr>]) @
                 [\<lparr>ev_t = clock s (reads s + 5), ev_obj = ob_b\<rparr>])"
proof -
  from scoreText_object [OF assms(3)] obtain ob_u where
    ob_u: "scoreText (JStr (trim input)) = Inr (RetObject ob_u)"
    by blast
  note sub = submit_not_crisis [OF assms(3) ob_u assms(4), of useServer resp r s]
  from turn_replied [OF assms(1,2,4) sub] obtain reply ob_b s1 where
    rep: "reply \<noteq> []" "scoreText (JStr reply) = Inr (RetObject ob_b)"
      "replied reply ob_b (render_user (trim input) ob_u s) s1"
      "transcript (submit input useServer resp r s) = transcript s1"
      "emotionTimeline (submit input useServer resp r s) = emotionTimeline s1"
    by blast
  show ?thesis
    using ob_u rep(1,2) replied_after_user(1,2) [OF rep(3)] rep(4,5) by auto
qed

theorem every_reply_scored_witness:
  "(0 :: real) \<le> 0 \<and> (0 :: real) < 1 \<and> trim ''I feel sad'' \<noteq> [] \<and>
   detectCrisis (JStr (trim ''I feel sad'')) = Inr False \<and>
   length (transcript (submit ''I feel sad'' True FetchRejected 0 (startup id))) = 3 \<and>
   length (emotionTimeline (submit ''I feel sad'' True FetchRejected 0 (startup id))) = 3"
proof -
  have h: "(0 :: real) \<le> 0" "(0 :: real) < 1" "trim ''I feel sad'' \<noteq> []"
    "detectCrisis (JStr (trim ''I feel sad'')) = Inr False"
    by (simp_all add: trim_sad not_crisis_sad)
  from every_reply_scored [OF h, of True FetchRejected "startup id"]
  have "length (transcript (submit ''I feel sad'' True FetchRejected 0 (startup id))) = 3 \<and>
   length (emotionTimeline (submit ''I feel sad'' True FetchRejected 0 (startup id))) = 3"
    by (auto simp: startup_fields startup_timeline window80_def)
  with h show ?thesis
    by simp
qed

text \<open>
  Claim C4, as amended. When the call succeeds and the reply field is missing or falsy, the
  client does not fall back to the local reply: the bot reply of the turn is the fixed
  apology, scored and recorded like any server reply (and followed by the escalation when
  the body flags a crisis). The client falls back to the local path, and then behaves
  exactly as with the server switched off, when \<^verbatim>\<open>fetch\<close> rejects, the status is not
  ok, the body is not JSON, the body is \<^verbatim>\<open>null\<close> or the reply is truthy and not a string.
\<close>

theorem malformed_reply_apology:
  assumes "trim input \<noteq> []" and "detectCrisis (JStr (trim input)) = Inr False"
  shows "(get_prop data ''reply'' = Inr v \<and> \<not> truthy v \<longrightarrow>
      scoreText (JStr APOLOGY) = Inr (RetObject NEUTRAL_OBJ) \<and>
      (\<exists>ob_u. scoreText (JStr (trim input)) = Inr (RetObject ob_u) \<and>
         transcript (submit input True (Response True (Some data)) r s) =
           transcript s @ [entry ''user'' (trim input) ob_u (clock s (reads s + 1)),
                           entry ''bot'' APOLOGY NEUTRAL_OBJ (clock s (reads s + 4))] \<and>
         messages (submit input True (Response True (Some data)) r s) =
           messages s @ ([user_bubble (trim input) ob_u (clock s (reads s)),
                         bot_bubble APOLOGY NEUTRAL_OBJ (clock s (reads s + 3))] @
                        (if safety_crisis data then [crisis_bubble (clock s (reads s + 6))] else [])))) \<and>
     (resp = FetchRejected \<or> (\<exists>b. resp = Response False b) \<or> resp = Response True None \<or>
      (\<exists>d. resp = Response True (Some d) \<and> server_reply d = None) \<longrightarrow>
        submit input True resp r s = submit input False resp r s)"
proof -
  from scoreText_object [OF assms(1)] obtain ob_u where
    ob_u: "scoreText (JStr (trim input)) = Inr (RetObject ob_u)"
    by blast
  have a: "scoreText (JStr APOLOGY) = Inr (RetObject NEUTRAL_OBJ)"
    by (simp add: scoreText_APOLOGY NEUTRAL_OBJ_def)
  show ?thesis
    using a ob_u apology_turn [OF assms ob_u, where data = data and v = v and r = r and s = s]
      failure_turn [OF assms, where resp = resp and r = r and s = s]
    by blast
qed

theorem malformed_reply_apology_witness:
  "trim ''I feel sad'' \<noteq> [] \<and> detectCrisis (JStr (trim ''I feel sad'')) = Inr False \<and>
   get_prop (JObj []) ''reply'' = Inr JUndefined \<and> \<not> truthy JUndefined \<and>
   map te_text (transcript (submit ''I feel sad'' True (Response True (Some (JObj []))) 0 (blank_page id))) =
     [''I feel sad'', APOLOGY] \<and>
   submit ''I feel sad'' True FetchRejected 0 (blank_page id) =
     submit ''I feel sad'' False FetchRejected 0 (blank_page id)"
proof -
  have h: "trim ''I feel sad'' \<noteq> []" "detectCrisis (JStr (trim ''I feel sad'')) = Inr False"
    by (simp_all add: trim_sad not_crisis_sad)
  have g: "get_prop (JObj []) ''reply'' = Inr JUndefined \<and> \<not> truthy JUndefined"
    by simp
  from malformed_reply_apology [OF h, where data = "JObj []" and v = JUndefined and r = 0
      and s = "blank_page id" and resp = FetchRejected] g
  have "map te_text (transcript (submit ''I feel sad'' True (Response True (Some (JObj []))) 0 (blank_page id))) =
     [''I feel sad'', APOLOGY]"
    and "submit ''I feel sad'' True FetchRejected 0 (blank_page id) =
     submit ''I feel sad'' False FetchRejected 0 (blank_page id)"
    by (auto simp: trim_sad entry_def blank_page_def)
  with h g show ?thesis
    by simp
qed

text \<open>
  Claim C4 as stated fails: for the text \<^verbatim>\<open>I feel sad\<close> and a body without a reply the
  bot entry is the apology, while after a rejected \<^verbatim>\<open>fetch\<close> it is the high-concern
  message of the local reply.
\<close>

theorem malformed_reply_counterexample:
  "te_text (last (transcript (submit ''I feel sad'' True (Response True (Some (JObj []))) 0 (blank_page id)))) =
     APOLOGY \<and>
   te_text (last (transcript (submit ''I feel sad'' True FetchRejected 0 (blank_page id)))) =
     HIGH_CONCERN \<and>
   APOLOGY \<noteq> HIGH_CONCERN"
proof -
  have h: "trim ''I feel sad'' \<noteq> []" "detectCrisis (JStr (trim ''I feel sad'')) = Inr False"
    by (simp_all add: trim_sad not_crisis_sad)
  have u: "scoreText (JStr (trim ''I feel sad'')) =
     Inr (RetObject \<lparr>score = Some (Num (- 0.8)), emotion = Some ''sadness'', count = Some 1\<rparr>)"
    by (simp add: trim_sad scoreText_sad)
  have g: "get_prop (JObj []) ''reply'' = Inr JUndefined" "\<not> truthy JUndefined"
    by simp_all
  have a: "te_text (last (transcript (submit ''I feel sad'' True (Response True (Some (JObj []))) 0 (blank_page id)))) =
     APOLOGY"
    using apology_turn(1) [OF h u g, where r = 0 and s = "blank_page id"] by (simp add: entry_def)
  obtain ob where ob: "scoreText (JStr HIGH_CONCERN) = Inr (RetObject ob)"
    using scoreText_HIGH_CONCERN by blast
  have l: "localReply (JStr (trim ''I feel sad''))
        \<lparr>score = Some (Num (- 0.8)), emotion = Some ''sadness'', count = Some 1\<rparr> 0 st =
      Inr (Some HIGH_CONCERN, st)" for st
    using localReply_number [OF h(2), where x = "- 0.8" and r = 0 and st = st] by simp
  have f: "submit ''I feel sad'' True FetchRejected 0 (blank_page id) =
     submit ''I feel sad'' False FetchRejected 0 (blank_page id)"
    by (rule failure_turn [OF h]) simp
  have b: "te_text (last (transcript (submit ''I feel sad'' True FetchRejected 0 (blank_page id)))) =
     HIGH_CONCERN"
    unfolding f
    using local_turn [OF h u l fixed_replies_nonempty(1) ob, where s = "blank_page id" and resp = FetchRejected]
    by (simp add: entry_def)
  have c: "APOLOGY \<noteq> HIGH_CONCERN"
    by (simp add: APOLOGY_def HIGH_CONCERN_def)
  from a b c show ?thesis
    by simp
qed

text \<open>
  Claim C5, as amended. Let the remote call succeed and the text not be flagged by the
  client. When the reply of the response is a string, or is missing or falsy so that the
  apology stands in for it, and the response flags a crisis, the turn renders the reply,
  records it in the transcript and the timeline and then calls \<^verbatim>\<open>escalateToCrisis\<close>
  once, as a turn flagged by the client does: in both the overlay is shown and the fixed
  crisis message is the last message rendered. The rest differs: the remote turn records the
  user's entry and the server's reply and pushes two timeline events; the local turn
  records the user's entry and the entry \<^verbatim>\<open>Crisis escalation message\<close> with score -1
  and emotion \<^verbatim>\<open>crisis\<close>, and pushes the user's event only. When the reply is truthy and
  not a string, or the body is \<^verbatim>\<open>null\<close>, the exception is thrown before the flag is
  read: the turn is the one of the local path and the overlay stays as it was, whatever
  the response flags.
\<close>

theorem remote_crisis_escalation:
  "(trim input \<noteq> [] \<and> detectCrisis (JStr (trim input)) = Inr False \<and>
    server_reply data = Some reply \<and> safety_crisis data \<longrightarrow>
      (\<exists>ob_u ob_b.
         scoreText (JStr (trim input)) = Inr (RetObject ob_u) \<and>
         scoreText (JStr reply) = Inr (RetObject ob_b) \<and>
         crisisOverlay_hidden (submit input True (Response True (Some data)) r s) = False \<and>
         messages (submit input True (Response True (Some data)) r s) =
           messages s @ [user_bubble (trim input) ob_u (clock s (reads s)),
                         bot_bubble reply ob_b (clock s (reads s + 3)),
                         crisis_bubble (clock s (reads s + 6))] \<and>
         transcript (submit input True (Response True (Some data)) r s) =
           transcript s @ [entry ''user'' (trim input) ob_u (clock s (reads s + 1)),
                           entry ''bot'' reply ob_b (clock s (reads s + 4))] \<and>
         emotionTimeline (submit input True (Response True (Some data)) r s) =
           window80 (window80 (emotionTimeline s @
                        [\<lparr>ev_t = clock s (reads s + 2), ev_obj = ob_u\<rparr>]) @
                     [\<lparr>ev_t = clock s (reads s + 5), ev_obj = ob_b\<rparr>]))) \<and>
   (trim input \<noteq> [] \<and> detectCrisis (JStr (trim input)) = Inr False \<and>
    server_reply data' = None \<longrightarrow>
      submit input True (Response True (Some data')) r s =
        submit input False (Response True (Some data')) r s \<and>
      crisisOverlay_hidden (submit input True (Response True (Some data')) r s) =
        crisisOverlay_hidden s) \<and>
   (trim input' \<noteq> [] \<and> detectCrisis (JStr (trim input')) = Inr True \<longrightarrow>
      (\<exists>ob_u.
         scoreText (JStr (trim input')) = Inr (RetObject ob_u) \<and>
         crisisOverlay_hidden (submit input' useServer resp r' s) = False \<and>
         messages (submit input' useServer resp r' s) =
           messages s @ [user_bubble (trim input') ob_u (clock s (reads s)),
                         crisis_bubble (clock s (reads s + 3))] \<and>
         transcript (submit input' useServer resp r' s) =
           transcript s @ [entry ''user'' (trim input') ob_u (clock s (reads s + 1)),
                           entry ''bot'' ''Crisis escalation message'' CRISIS_OBJ
                             (clock s (reads s + 4))] \<and>
         emotionTimeline (submit input' useServer resp r' s) =
           window80 (emotionTimeline s @ [\<lparr>ev_t = clock s (reads s + 2), ev_obj = ob_u\<rparr>])))"
proof (intro conjI impI)
  assume a: "trim input \<noteq> [] \<and> detectCrisis (JStr (trim input)) = Inr False \<and>
    server_reply data = Some reply \<and> safety_crisis data"
  then obtain ob_u where ob_u: "scoreText (JStr (trim input)) = Inr (RetObject ob_u)"
    using scoreText_object by blast
  from a have "reply \<noteq> []"
    using server_reply_nonempty by blast
  then obtain ob_b where ob_b: "scoreText (JStr reply) = Inr (RetObject ob_b)"
    using scoreText_object by blast
  from a have h: "trim input \<noteq> []" "detectCrisis (JStr (trim input)) = Inr False"
    "server_reply data = Some reply" "safety_crisis data"
    by simp_all
  show "\<exists>ob_u ob_b.
         scoreText (JStr (trim input)) = Inr (RetObject ob_u) \<and>
         scoreText (JStr reply) = Inr (RetObject ob_b) \<and>
         crisisOverlay_hidden (submit input True (Response True (Some data)) r s) = False \<and>
         messages (submit input True (Response True (Some data)) r s) =
           messages s @ [user_bubble (trim input) ob_u (clock s (reads s)),
                         bot_bubble reply ob_b (clock s (reads s + 3)),
                         crisis_bubble (clock s (reads s + 6))] \<and>
         transcript (submit input True (Response True (Some data)) r s) =
           transcript s @ [entry ''user'' (trim input) ob_u (clock s (reads s + 1)),
                           entry ''bot'' reply ob_b (clock s (reads s + 4))] \<and>
         emotionTimeline (submit input True (Response True (Some data)) r s) =
           window80 (window80 (emotionTimeline s @
                        [\<lparr>ev_t = clock s (reads s + 2), ev_obj = ob_u\<rparr>]) @
                     [\<lparr>ev_t = clock s (reads s + 5), ev_obj = ob_b\<rparr>])"
    using ob_u ob_b remote_crisis_turn [OF h(1,2) ob_u h(3) ob_b h(4), where r = r and s = s]
    by blast
next
  assume a: "trim input \<noteq> [] \<and> detectCrisis (JStr (trim input)) = Inr False \<and>
    server_reply data' = None"
  then have h: "trim input \<noteq> []" "detectCrisis (JStr (trim input)) = Inr False"
    and n: "server_reply data' = None"
    by simp_all
  show eq: "submit input True (Response True (Some data')) r s =
        submit input False (Response True (Some data')) r s"
    by (rule failure_turn [OF h]) (simp add: n)
  show "crisisOverlay_hidden (submit input True (Response True (Some data')) r s) =
        crisisOverlay_hidden s"
    unfolding eq by (rule local_turn_overlay [OF h])
next
  assume a: "trim input' \<noteq> [] \<and> detectCrisis (JStr (trim input')) = Inr True"
  then obtain ob_u where ob_u: "scoreText (JStr (trim input')) = Inr (RetObject ob_u)"
    using scoreText_object by blast
  from a have h: "trim input' \<noteq> []" "detectCrisis (JStr (trim input')) = Inr True"
    by simp_all
  show "\<exists>ob_u.
         scoreText (JStr (trim input')) = Inr (RetObject ob_u) \<and>
         crisisOverlay_hidden (submit input' useServer resp r' s) = False \<and>
         messages (submit input' useServer resp r' s) =
           messages s @ [user_bubble (trim input') ob_u (clock s (reads s)),
                         crisis_bubble (clock s (reads s + 3))] \<and>
         transcript (submit input' useServer resp r' s) =
           transcript s @ [entry ''user'' (trim input') ob_u (clock s (reads s + 1)),
                           entry ''bot'' ''Crisis escalation message'' CRISIS_OBJ
                             (clock s (reads s + 4))] \<and>
         emotionTimeline (submit input' useServer resp r' s) =
           window80 (emotionTimeline s @ [\<lparr>ev_t = clock s (reads s + 2), ev_obj = ob_u\<rparr>])"
    using ob_u crisis_turn [OF h(1) ob_u h(2), where useServer = useServer and resp = resp
        and r = r' and s = s]
    by blast
qed

theorem remote_crisis_escalation_witness:
  "trim ''I feel sad'' \<noteq> [] \<and> detectCrisis (JStr (trim ''I feel sad'')) = Inr False \<and>
   server_reply flagged_body = Some ''Please call for help'' \<and> safety_crisis flagged_body \<and>
   server_reply unusable_body = None \<and> safety_crisis unusable_body \<and>
   trim ''I want to die'' \<noteq> [] \<and> detectCrisis (JStr (trim ''I want to die'')) = Inr True \<and>
   crisisOverlay_hidden (submit ''I feel sad'' True (Response True (Some flagged_body)) 0 (blank_page id)) = False \<and>
   map msg_text (messages (submit ''I feel sad'' True (Response True (Some flagged_body)) 0 (blank_page id))) =
     [''I feel sad'', ''Please call for help'', CRISIS_MESSAGE] \<and>
   length (emotionTimeline (submit ''I feel sad'' True (Response True (Some flagged_body)) 0 (blank_page id))) = 2 \<and>
   crisisOverlay_hidden (submit ''I feel sad'' True (Response True (Some unusable_body)) 0 (blank_page id)) = True \<and>
   crisisOverlay_hidden (submit ''I want to die'' True FetchRejected 0 (blank_page id)) = False \<and>
   map msg_text (messages (submit ''I want to die'' True FetchRejected 0 (blank_page id))) =
     [''I want to die'', CRISIS_MESSAGE] \<and>
   length (emotionTimeline (submit ''I want to die'' True FetchRejected 0 (blank_page id))) = 1"
proof -
  have h: "trim ''I feel sad'' \<noteq> [] \<and> detectCrisis (JStr (trim ''I feel sad'')) = Inr False \<and>
    server_reply flagged_body = Some ''Please call for help'' \<and> safety_crisis flagged_body"
    by (simp add: trim_sad not_crisis_sad flagged_body_reads)
  have u: "trim ''I feel sad'' \<noteq> [] \<and> detectCrisis (JStr (trim ''I feel sad'')) = Inr False \<and>
    server_reply unusable_body = None"
    by (simp add: trim_sad not_crisis_sad unusable_body_reads)
  have h': "trim ''I want to die'' \<noteq> [] \<and> detectCrisis (JStr (trim ''I want to die'')) = Inr True"
    by (simp add: trim_die crisis_die)
  note t = remote_crisis_escalation [where input = "''I feel sad''" and data = flagged_body
      and reply = "''Please call for help''" and r = 0 and s = "blank_page id"
      and data' = unusable_body
      and input' = "''I want to die''" and useServer = True and resp = FetchRejected and r' = 0]
  note t1 = mp [OF conjunct1 [OF t] h]
  note t2 = mp [OF conjunct1 [OF conjunct2 [OF t]] u]
  note t3 = mp [OF conjunct2 [OF conjunct2 [OF t]] h']
  from t1 have a: "crisisOverlay_hidden (submit ''I feel sad'' True (Response True (Some flagged_body)) 0 (blank_page id)) = False \<and>
   map msg_text (messages (submit ''I feel sad'' True (Response True (Some flagged_body)) 0 (blank_page id))) =
     [''I feel sad'', ''Please call for help'', CRISIS_MESSAGE] \<and>
   length (emotionTimeline (submit ''I feel sad'' True (Response True (Some flagged_body)) 0 (blank_page id))) = 2"
    by (auto simp: blank_page_def user_bubble_def bot_bubble_def crisis_bubble_def trim_sad
        window80_def)
  from conjunct2 [OF t2] have b: "crisisOverlay_hidden (submit ''I feel sad'' True (Response True (Some unusable_body)) 0 (blank_page id)) = True"
    by (simp add: blank_page_def)
  from t3 have c: "crisisOverlay_hidden (submit ''I want to die'' True FetchRejected 0 (blank_page id)) = False \<and>
   map msg_text (messages (submit ''I want to die'' True FetchRejected 0 (blank_page id))) =
     [''I want to die'', CRISIS_MESSAGE] \<and>
   length (emotionTimeline (submit ''I want to die'' True FetchRejected 0 (blank_page id))) = 1"
    by (auto simp: blank_page_def user_bubble_def crisis_bubble_def trim_die window80_def)
  show ?thesis
    using h u h' a b c unusable_body_reads by simp
qed

text \<open>
  Claim C5 as stated fails: the side effects of the two turns are not the same. The turn
  flagged by the client ends with a transcript entry of emotion \<^verbatim>\<open>crisis\<close> and one
  timeline event; the turn flagged by the server has no such entry, records the server's
  reply instead and has two timeline events.
\<close>

theorem remote_crisis_counterexample:
  "map te_text (transcript (submit ''I want to die'' True FetchRejected 0 (blank_page id))) =
     [''I want to die'', ''Crisis escalation message''] \<and>
   map te_emotion (transcript (submit ''I want to die'' True FetchRejected 0 (blank_page id))) =
     [Some ''neutral'', Some ''crisis''] \<and>
   length (emotionTimeline (submit ''I want to die'' True FetchRejected 0 (blank_page id))) = 1 \<and>
   map te_text (transcript (submit ''I feel sad'' True (Response True (Some flagged_body)) 0 (blank_page id))) =
     [''I feel sad'', ''Please call for help''] \<and>
   map te_emotion (transcript (submit ''I feel sad'' True (Response True (Some flagged_body)) 0 (blank_page id))) =
     [Some ''sadness'', Some ''neutral''] \<and>
   length (emotionTimeline (submit ''I feel sad'' True (Response True (Some flagged_body)) 0 (blank_page id))) = 2"
proof -
  have d: "trim ''I want to die'' \<noteq> []"
    "scoreText (JStr (trim ''I want to die'')) = Inr (RetObject NEUTRAL_OBJ)"
    "detectCrisis (JStr (trim ''I want to die'')) = Inr True"
    by (simp_all add: trim_die scoreText_die crisis_die)
  have s: "trim ''I feel sad'' \<noteq> []" "detectCrisis (JStr (trim ''I feel sad'')) = Inr False"
    "scoreText (JStr (trim ''I feel sad'')) =
       Inr (RetObject \<lparr>score = Some (Num (- 0.8)), emotion = Some ''sadness'', count = Some 1\<rparr>)"
    by (simp_all add: trim_sad not_crisis_sad scoreText_sad)
  note l = crisis_turn(3,4) [OF d, where useServer = True and resp = FetchRejected and r = 0
      and s = "blank_page id"]
  note r = remote_crisis_turn(3,4) [OF s flagged_body_reads(1) scoreText_help flagged_body_reads(2),
      where r = 0 and s = "blank_page id"]
  show ?thesis
    unfolding l r
    by (simp add: blank_page_def entry_def NEUTRAL_OBJ_def CRISIS_OBJ_def window80_def trim_die trim_sad)
qed

text \<open>
  Claim C8, as amended. \<^verbatim>\<open>escalateToCrisis\<close> is idempotent on the crisis flag only: the
  overlay is shown after one call and after two, and every call renders one more copy of
  the crisis message. Escalation keeps no memory: after any sequence of turns, a turn whose
  text matches a crisis pattern shows the overlay, renders the crisis message after the
  user's message and records the crisis entry.
\<close>

theorem escalation_repeats:
  "crisisOverlay_hidden (escalateToCrisis s) = False \<and>
   crisisOverlay_hidden (escalateToCrisis (escalateToCrisis s)) =
     crisisOverlay_hidden (escalateToCrisis s) \<and>
   messages (escalateToCrisis s) = messages s @ [crisis_bubble (clock s (reads s))] \<and>
   messages (escalateToCrisis (escalateToCrisis s)) =
     messages (escalateToCrisis s) @ [crisis_bubble (clock s (reads s + 1))] \<and>
   (trim input \<noteq> [] \<and> detectCrisis (JStr (trim input)) = Inr True \<longrightarrow>
      (\<exists>ob_u. scoreText (JStr (trim input)) = Inr (RetObject ob_u) \<and>
         crisisOverlay_hidden (submit input useServer resp r (run_turns tns s)) = False \<and>
         messages (submit input useServer resp r (run_turns tns s)) =
           messages (run_turns tns s) @
             [user_bubble (trim input) ob_u (clock (run_turns tns s) (reads (run_turns tns s))),
              crisis_bubble (clock (run_turns tns s) (reads (run_turns tns s) + 3))] \<and>
         transcript (submit input useServer resp r (run_turns tns s)) =
           transcript (run_turns tns s) @
             [entry ''user'' (trim input) ob_u (clock (run_turns tns s) (reads (run_turns tns s) + 1)),
              entry ''bot'' ''Crisis escalation message'' CRISIS_OBJ
                (clock (run_turns tns s) (reads (run_turns tns s) + 4))]))"
proof -
  have turn: "\<exists>ob_u. scoreText (JStr (trim input)) = Inr (RetObject ob_u) \<and>
         crisisOverlay_hidden (submit input useServer resp r s0) = False \<and>
         messages (submit input useServer resp r s0) =
           messages s0 @ [user_bubble (trim input) ob_u (clock s0 (reads s0)),
              crisis_bubble (clock s0 (reads s0 + 3))] \<and>
         transcript (submit input useServer resp r s0) =
           transcript s0 @ [entry ''user'' (trim input) ob_u (clock s0 (reads s0 + 1)),
              entry ''bot'' ''Crisis escalation message'' CRISIS_OBJ (clock s0 (reads s0 + 4))]"
    if h: "trim input \<noteq> []" "detectCrisis (JStr (trim input)) = Inr True" for s0
  proof -
    from scoreText_object [OF h(1)] obtain ob_u where
      ob_u: "scoreText (JStr (trim input)) = Inr (RetObject ob_u)"
      by blast
    show ?thesis
      using ob_u crisis_turn(1-3) [OF h(1) ob_u h(2), where useServer = useServer and resp = resp
          and r = r and s = s0]
      by blast
  qed
  show ?thesis
    using turn [of "run_turns tns s"] by (simp add: escalateToCrisis_fields)
qed

theorem escalation_repeats_witness:
  "trim ''I want to die'' \<noteq> [] \<and> detectCrisis (JStr (trim ''I want to die'')) = Inr True \<and>
   crisisOverlay_hidden
     (submit ''I want to die'' True FetchRejected 0
        (run_turns [(''I want to die'', True, FetchRejected, 0)] (blank_page id))) = False \<and>
   length (messages
     (submit ''I want to die'' True FetchRejected 0
        (run_turns [(''I want to die'', True, FetchRejected, 0)] (blank_page id)))) =
     length (messages (run_turns [(''I want to die'', True, FetchRejected, 0)] (blank_page id))) + 2"
proof -
  have h: "trim ''I want to die'' \<noteq> [] \<and> detectCrisis (JStr (trim ''I want to die'')) = Inr True"
    by (simp add: trim_die crisis_die)
  from escalation_repeats [where input = "''I want to die''" and useServer = True
      and resp = FetchRejected and r = 0
      and tns = "[(''I want to die'', True, FetchRejected, 0)]" and s = "blank_page id"] h
  show ?thesis
    by auto
qed

text \<open>
  Claim C8 as stated fails: two calls of \<^verbatim>\<open>escalateToCrisis\<close> leave two crisis
  messages on the page, one call leaves one.
\<close>

theorem escalation_repeats_counterexample:
  "messages (escalateToCrisis (escalateToCrisis (blank_page id))) \<noteq>
     messages (escalateToCrisis (blank_page id)) \<and>
   length (messages (escalateToCrisis (escalateToCrisis (blank_page id)))) = 2 \<and>
   length (messages (escalateToCrisis (blank_page id))) = 1"
  by (simp add: escalate_twice escalateToCrisis_fields blank_page_def)

text \<open>
  Claim C9. A message that the server's detector flags is flagged by the client's detector:
  the server's patterns are among the client's. The client checks its own detector first
  and, when it flags the text, does not look at the server's response at all. When it does
  not flag the text, the server of this repository answers the request with status 200 and
  \<^verbatim>\<open>safety.crisis\<close> false, so the client's branch for a crisis reported by the server
  is not taken and the overlay stays as it was.
\<close>

theorem server_crisis_subset:
  "(detectCrisisServer (JStr m) = Inr True \<longrightarrow> detectCrisis (JStr m) = Inr True) \<and>
   (trim input \<noteq> [] \<and> detectCrisis (JStr (trim input)) = Inr True \<longrightarrow>
      submit input True resp r s = submit input False resp' r' s) \<and>
   (trim input \<noteq> [] \<and> detectCrisis (JStr (trim input)) = Inr False \<longrightarrow>
      (\<exists>reply. api_chat model r1 (JObj [(''message'', JStr (trim input))]) =
                 (200, reply_json reply False False)) \<and>
      \<not> safety_crisis (snd (api_chat model r1 (JObj [(''message'', JStr (trim input))]))) \<and>
      crisisOverlay_hidden (submit input True (fetch_server model r1 (trim input)) r s) =
        crisisOverlay_hidden s)"
proof (intro conjI impI)
  assume "detectCrisisServer (JStr m) = Inr True"
  then show "detectCrisis (JStr m) = Inr True"
    by (rule server_implies_client)
next
  assume a: "trim input \<noteq> [] \<and> detectCrisis (JStr (trim input)) = Inr True"
  then obtain ob_u where ob_u: "scoreText (JStr (trim input)) = Inr (RetObject ob_u)"
    using scoreText_object by blast
  from a ob_u show "submit input True resp r s = submit input False resp' r' s"
    by (simp add: submit_crisis)
next
  assume a: "trim input \<noteq> [] \<and> detectCrisis (JStr (trim input)) = Inr False"
  then have h: "trim input \<noteq> []" "detectCrisis (JStr (trim input)) = Inr False"
    by simp_all
  from api_chat_not_crisis [OF h, of model r1] obtain reply where
    reply: "api_chat model r1 (JObj [(''message'', JStr (trim input))]) =
              (200, reply_json reply False False)"
    by blast
  then show "\<exists>reply. api_chat model r1 (JObj [(''message'', JStr (trim input))]) =
                 (200, reply_json reply False False)"
    by blast
  from reply show nf: "\<not> safety_crisis (snd (api_chat model r1 (JObj [(''message'', JStr (trim input))])))"
    by (simp add: safety_crisis_reply_json)
  have "fetch_server model r1 (trim input) = Response True (Some (reply_json reply False False))"
    by (simp add: fetch_server_def reply)
  then show "crisisOverlay_hidden (submit input True (fetch_server model r1 (trim input)) r s) =
        crisisOverlay_hidden s"
    using unflagged_turn_overlay [OF h, of "reply_json reply False False" True r s]
    by (simp add: safety_crisis_reply_json)
qed

theorem server_crisis_subset_witness:
  "detectCrisisServer (JStr ''I want to die'') = Inr True \<and>
   detectCrisis (JStr ''I want to die'') = Inr True \<and>
   trim ''I want to die'' \<noteq> [] \<and> detectCrisis (JStr (trim ''I want to die'')) = Inr True \<and>
   submit ''I want to die'' True (Response True (Some flagged_body)) 0 (blank_page id) =
     submit ''I want to die'' False FetchRejected 0 (blank_page id) \<and>
   trim ''I feel sad'' \<noteq> [] \<and> detectCrisis (JStr (trim ''I feel sad'')) = Inr False \<and>
   \<not> safety_crisis (snd (api_chat NoClient 0 (JObj [(''message'', JStr (trim ''I feel sad''))]))) \<and>
   crisisOverlay_hidden (submit ''I feel sad'' True (fetch_server NoClient 0 (trim ''I feel sad'')) 0
      (blank_page id)) = True"
proof -
  have s: "detectCrisisServer (JStr ''I want to die'') = Inr True"
    by code_simp
  have d: "trim ''I want to die'' \<noteq> [] \<and> detectCrisis (JStr (trim ''I want to die'')) = Inr True"
    by (simp add: trim_die crisis_die)
  have n: "trim ''I feel sad'' \<noteq> [] \<and> detectCrisis (JStr (trim ''I feel sad'')) = Inr False"
    by (simp add: trim_sad not_crisis_sad)
  note t1 = server_crisis_subset [where m = "''I want to die''" and input = "''I want to die''"
      and resp = "Response True (Some flagged_body)" and r = 0 and s = "blank_page id"
      and resp' = FetchRejected and r' = 0 and model = NoClient and ?r1.0 = 0]
  note t2 = server_crisis_subset [where m = "''I want to die''" and input = "''I feel sad''"
      and resp = FetchRejected and r = 0 and s = "blank_page id"
      and resp' = FetchRejected and r' = 0 and model = NoClient and ?r1.0 = 0]
  from t1 s d have a: "detectCrisis (JStr ''I want to die'') = Inr True"
    "submit ''I want to die'' True (Response True (Some flagged_body)) 0 (blank_page id) =
     submit ''I want to die'' False FetchRejected 0 (blank_page id)"
    by blast+
  from t2 n have b:
    "\<not> safety_crisis (snd (api_chat NoClient 0 (JObj [(''message'', JStr (trim ''I feel sad''))])))"
    "crisisOverlay_hidden (submit ''I feel sad'' True (fetch_server NoClient 0 (trim ''I feel sad'')) 0
      (blank_page id)) = crisisOverlay_hidden (blank_page id)"
    by blast+
  from s d n a b show ?thesis
    by (simp add: blank_page_def)
qed

end
